theory Spec2Isabelle
  imports Complex_Main
begin

section \<open>JavaScript strings\<close>

text \<open>
  A JavaScript string is a sequence of UTF-16 code units. The equipment class names, the
  only strings whose letters the scripts look at, are modelled so: a \<open>jsstring\<close> is the
  list of the code units, and \<open>str\<close> gives the code units of a literal that is written
  in ASCII. Element identifiers, class tokens and texts are only copied and compared;
  they are kept as Isabelle strings.

  \<open>String.prototype.toLowerCase\<close> is a function of the engine, not of the sources. It is
  a component of the state the scripts run in (the field \<open>toLowerCase\<close> below), and a
  theorem assumes about it only what it says.
\<close>

type_synonym jsstring = "int list"

definition str :: "string \<Rightarrow> jsstring" where
  "str s = map of_char s"

text \<open>
  The ASCII part of lower-casing: a string of code units below 128 is lower-cased unit
  by unit, \<open>A\<close>..\<open>Z\<close> (65..90) going to \<open>a\<close>..\<open>z\<close>. An engine folds ASCII when its
  \<open>toLowerCase\<close> does this on every such string, as the Unicode case mapping does.
\<close>

definition isAscii :: "jsstring \<Rightarrow> bool" where
  "isAscii s = list_all (\<lambda>c. 0 \<le> c \<and> c < 128) s"

definition asciiLowerUnit :: "int \<Rightarrow> int" where
  "asciiLowerUnit c = (if 65 \<le> c \<and> c \<le> 90 then c + 32 else c)"

definition foldsAscii :: "(jsstring \<Rightarrow> jsstring) \<Rightarrow> bool" where
  "foldsAscii lower = (\<forall>s. isAscii s \<longrightarrow> lower s = map asciiLowerUnit s)"

text \<open>
  Changing the case of an ASCII letter: \<open>swapCaseUnit\<close> turns an upper-case letter into
  the lower-case one and back. Two strings are ASCII case variants of each other when
  they have the same length and agree position by position up to such a swap.
\<close>

definition swapCaseUnit :: "int \<Rightarrow> int" where
  "swapCaseUnit c =
     (if 65 \<le> c \<and> c \<le> 90 then c + 32
      else if 97 \<le> c \<and> c \<le> 122 then c - 32
      else c)"

definition caseVariant :: "jsstring \<Rightarrow> jsstring \<Rightarrow> bool" where
  "caseVariant s t = list_all2 (\<lambda>a b. b = a \<or> b = swapCaseUnit a) s t"

section \<open>The browser environment\<close>

datatype error = TypeError

text \<open>
  A body part of the SVG figure is a group element; \<open>querySelectorAll\<close> reaches the
  shapes below it. A shape has a tag name and the two presentation attributes the code
  reads and writes.
\<close>

record shape =
  tagName :: string
  fill :: "string option"
  stroke :: "string option"

datatype csstransition =
  T_unset
  | T_none
  | T_all_500ms_ease
  | T_width_linear real

text \<open>
  An element of the page, with the properties the scripts touch: the class list (an
  ordered set of tokens), the text, the inline styles \<open>display\<close>, \<open>width\<close>, \<open>color\<close>,
  \<open>transition\<close> (the duration of a \<open>width ... linear\<close> transition is kept in
  milliseconds) and the shapes below the element.
\<close>

record element =
  classList :: "string list"
  textContent :: string
  display :: string
  width :: string
  color :: string
  transition :: csstransition
  shapes :: "shape list"

definition classList_add :: "string \<Rightarrow> element \<Rightarrow> element" where
  "classList_add c e =
     (if c \<in> set (classList e) then e else e\<lparr>classList := classList e @ [c]\<rparr>)"

definition classList_remove :: "string \<Rightarrow> element \<Rightarrow> element" where
  "classList_remove c e = e\<lparr>classList := filter (\<lambda>x. x \<noteq> c) (classList e)\<rparr>"

definition classList_removeAll :: "string list \<Rightarrow> element \<Rightarrow> element" where
  "classList_removeAll cs e = fold classList_remove cs e"

text \<open>
  Particles are anonymous \<open>div\<close> elements appended to \<open>#access-status\<close>. The size is in
  pixels and the horizontal position in percent; the values come from \<open>Math.random\<close> and
  are kept as exact reals (the rounding of IEEE doubles is not modelled).
\<close>

record particle =
  pid :: nat
  size_px :: "real option"
  background :: "string option"
  left_pct :: real
  animationDelay_s :: "real option"

text \<open>
  Every function passed to \<open>setTimeout\<close> is one constructor, named after the place it
  is written at, carrying the variables the closure captures. The \<open>G_\<close> and \<open>D_\<close>
  constructors are the steps that \<open>playAccessGranted\<close> and \<open>playAccessDenied\<close>
  schedule; \<open>BodyPartScaleIn\<close> to \<open>ShakeEnd\<close> are the callbacks inside the methods
  of the animation controller; \<open>MissingPartAttentionEnd\<close> is the callback of
  \<open>highlightMissingPPE\<close>; the last four are the callbacks of the socket handler
  (\<open>animateDoorProgress\<close>, \<open>playSuccessAnimation\<close>, \<open>playDeniedAnimation\<close>,
  \<open>createParticles\<close>).
\<close>

datatype action =
    G_transitionStatusSection
  | G_showWelcomeMessage "string option"
  | G_createSuccessParticles
  | G_animateDoorOpening
  | G_done
  | D_highlightMissingPPE
  | D_showDenialReason "string option"
  | D_done
  | BodyPartScaleIn string
  | BodyPartScaleEnd string
  | StatusFadeIn
  | StatusFadeEnd
  | WelcomeSlideEnd
  | ReasonAttentionEnd
  | SuccessParticleSpawn
  | SuccessParticleRemove nat
  | DoorOpeningFill real
  | ShakeEnd string
  | MissingPartAttentionEnd string
  | DoorProgressFill
  | RippleEnd
  | DeniedShakeEnd
  | ParticleRemove nat

text \<open>
  The state the scripts run in. The browser: the clock \<open>now\<close> in milliseconds, the
  pending timers in the order they were registered, the elements of the page by
  identifier, the particles appended to the status panel, the stream of values that
  \<open>Math.random\<close> returns and how many have been drawn, the engine's
  \<open>String.prototype.toLowerCase\<close>, and the requests emitted on the socket. The module variables of the socket handler (\<open>currentState\<close>,
  \<open>detectedClasses\<close>, \<open>requiredClasses\<close>), of the body visualization (\<open>svgLoaded\<close>,
  \<open>currentDetected\<close>, \<open>currentRequired\<close>) and the field \<open>isAnimating\<close> of the
  animation controller. \<open>fired\<close> is a trace kept for the proofs: the callbacks that
  have run, each with the time it ran at.
\<close>

record world =
  now :: int
  timers :: "(int \<times> action) list"
  fired :: "(int \<times> action) list"
  doc :: "string \<Rightarrow> element option"
  particles :: "particle list"
  nextParticle :: nat
  mathRandom :: "nat \<Rightarrow> real"
  drawn :: nat
  toLowerCase :: "jsstring \<Rightarrow> jsstring"
  emitted :: "string list"
  currentState :: string
  detectedClasses :: "jsstring list"
  requiredClasses :: "jsstring list"
  svgLoaded :: bool
  currentDetected :: "jsstring list"
  currentRequired :: "jsstring list"
  isAnimating :: bool

definition getElementById :: "world \<Rightarrow> string \<Rightarrow> element option" where
  "getElementById w i = doc w i"

definition updateElement :: "string \<Rightarrow> (element \<Rightarrow> element) \<Rightarrow> world \<Rightarrow> world" where
  "updateElement i f w =
     (case doc w i of
        None \<Rightarrow> w
      | Some e \<Rightarrow> w\<lparr>doc := (doc w)(i \<mapsto> f e)\<rparr>)"

text \<open>
  The clock counts milliseconds. \<open>setTimeout\<close> registers the callback with the time it
  is due at; a negative delay counts as zero. The handle it returns is dropped by every
  caller, so the model returns none.
\<close>

definition setTimeout :: "action \<Rightarrow> int \<Rightarrow> world \<Rightarrow> world" where
  "setTimeout a delay w = w\<lparr>timers := timers w @ [(now w + max 0 delay, a)]\<rparr>"

definition socket_emit :: "string \<Rightarrow> world \<Rightarrow> world" where
  "socket_emit m w = w\<lparr>emitted := emitted w @ [m]\<rparr>"

text \<open>
  A handler or a timer callback either runs to its end or throws: reading a property of
  \<open>null\<close> (an element that \<open>getElementById\<close> did not find) is a \<open>TypeError\<close>.
  \<open>derefUpdate\<close> is a property write through a reference obtained from
  \<open>getElementById\<close> with no null test; \<open>seqE\<close> runs statements in order and stops
  at the first one that throws.
\<close>

definition derefUpdate :: "string \<Rightarrow> (element \<Rightarrow> element) \<Rightarrow> world \<Rightarrow> error + world" where
  "derefUpdate i f w =
     (case getElementById w i of
        None \<Rightarrow> Inl TypeError
      | Some e \<Rightarrow> Inr (updateElement i f w))"

definition bindE :: "error + world \<Rightarrow> (world \<Rightarrow> error + world) \<Rightarrow> error + world" where
  "bindE r f = (case r of Inl e \<Rightarrow> Inl e | Inr w \<Rightarrow> f w)"

fun seqE :: "(world \<Rightarrow> error + world) list \<Rightarrow> world \<Rightarrow> error + world" where
  "seqE [] w = Inr w"
| "seqE (f # fs) w = bindE (f w) (seqE fs)"

text \<open>
  Optional string fields of a payload: \<open>None\<close> is an absent field (\<open>undefined\<close>).
  \<open>x || d\<close> takes \<open>d\<close> when \<open>x\<close> is falsy, and the empty string is falsy like
  \<open>undefined\<close>; a template literal prints \<open>undefined\<close> for an absent value.
\<close>

definition jsTruthy :: "string option \<Rightarrow> bool" where
  "jsTruthy v = (case v of None \<Rightarrow> False | Some s \<Rightarrow> s \<noteq> [])"

definition jsOr :: "string option \<Rightarrow> string \<Rightarrow> string" where
  "jsOr v d = (case v of None \<Rightarrow> d | Some s \<Rightarrow> if s = [] then d else s)"

definition jsToString :: "string option \<Rightarrow> string" where
  "jsToString v = (case v of None \<Rightarrow> ''undefined'' | Some s \<Rightarrow> s)"

text \<open>\<open>Math.random()\<close>: the next value of the stream.\<close>

definition Math_random :: "world \<Rightarrow> real \<times> world" where
  "Math_random w = (mathRandom w (drawn w), w\<lparr>drawn := drawn w + 1\<rparr>)"

section \<open>Body visualization: the coverage mapping\<close>

definition BODY_PART_MAPPING :: "(string \<times> jsstring list) list" where
  "BODY_PART_MAPPING =
     [(''head'', [str ''Head'', str ''Helmet'']),
      (''face'', [str ''Face'', str ''Face-mask-medical'']),
      (''eyes'', [str ''Glasses'', str ''Face-guard'']),
      (''mouth'', [str ''Face-mask-medical'']),
      (''ears'', [str ''Ear'', str ''Earmuffs'']),
      (''chest'', [str ''Safety-vest'', str ''Medical-suit'', str ''Safety-suit'']),
      (''hands-left'', [str ''Hands'', str ''Gloves'']),
      (''hands-right'', [str ''Hands'', str ''Gloves'']),
      (''feet'', [str ''Foot'', str ''Shoes''])]"

definition COLORS_REQUIRED_DETECTED :: string where
  "COLORS_REQUIRED_DETECTED = ''#10B981''"

definition COLORS_REQUIRED_MISSING :: string where
  "COLORS_REQUIRED_MISSING = ''#EF4444''"

definition COLORS_NOT_REQUIRED :: string where
  "COLORS_NOT_REQUIRED = ''#9CA3AF''"

definition COLORS_DEFAULT :: string where
  "COLORS_DEFAULT = ''#D1D5DB''"

datatype regionStatus = NOT_REQUIRED | REQUIRED_AND_DETECTED | REQUIRED_AND_MISSING

text \<open>
  The two tests of the loop body of \<open>updateBodyVisualization\<close> (and of
  \<open>highlightMissingPPE\<close>): \<open>partClassesLower.some(cls => requiredLower.includes(cls))\<close>
  and the same against \<open>detectedLower\<close>, each list lower-cased with the engine's
  \<open>toLowerCase\<close> (the first argument).
\<close>

definition isRequired :: "(jsstring \<Rightarrow> jsstring) \<Rightarrow> jsstring list \<Rightarrow> jsstring list \<Rightarrow> bool" where
  "isRequired lower partClasses required =
     list_ex (\<lambda>cls. cls \<in> set (map lower required)) (map lower partClasses)"

definition isDetected :: "(jsstring \<Rightarrow> jsstring) \<Rightarrow> jsstring list \<Rightarrow> jsstring list \<Rightarrow> bool" where
  "isDetected lower partClasses detected =
     list_ex (\<lambda>cls. cls \<in> set (map lower detected)) (map lower partClasses)"

text \<open>The three-way branch that picks the colour and the glow of a part.\<close>

definition partStatus ::
  "(jsstring \<Rightarrow> jsstring) \<Rightarrow> jsstring list \<Rightarrow> jsstring list \<Rightarrow> jsstring list \<Rightarrow> regionStatus" where
  "partStatus lower detected required partClasses =
     (if \<not> isRequired lower partClasses required then NOT_REQUIRED
      else if isDetected lower partClasses detected then REQUIRED_AND_DETECTED
      else REQUIRED_AND_MISSING)"

fun statusColor :: "regionStatus \<Rightarrow> string" where
  "statusColor NOT_REQUIRED = COLORS_NOT_REQUIRED"
| "statusColor REQUIRED_AND_DETECTED = COLORS_REQUIRED_DETECTED"
| "statusColor REQUIRED_AND_MISSING = COLORS_REQUIRED_MISSING"

fun statusGlow :: "regionStatus \<Rightarrow> string option" where
  "statusGlow NOT_REQUIRED = None"
| "statusGlow REQUIRED_AND_DETECTED = Some ''glow-green''"
| "statusGlow REQUIRED_AND_MISSING = Some ''glow-red''"

text \<open>
  The status that the loop of \<open>updateBodyVisualization\<close> computes for each region,
  collected in the order of \<open>Object.keys(BODY_PART_MAPPING)\<close>.
\<close>

definition computeRegionStatuses ::
  "(jsstring \<Rightarrow> jsstring) \<Rightarrow> jsstring list \<Rightarrow> jsstring list \<Rightarrow> (string \<times> regionStatus) list" where
  "computeRegionStatuses lower detected required =
     map (\<lambda>(partId, partClasses). (partId, partStatus lower detected required partClasses))
       BODY_PART_MAPPING"

text \<open>
  \<open>setPartColor\<close>: an absent part is reported with \<open>console.warn\<close> and left alone.
  Otherwise every \<open>ellipse, circle, path, rect\<close> below the part gets the fill colour, and
  then every \<open>line, path\<close> that has a stroke attribute and no fill attribute gets the
  stroke colour.
\<close>

definition setFill :: "string \<Rightarrow> shape \<Rightarrow> shape" where
  "setFill c s =
     (if tagName s \<in> set [''ellipse'', ''circle'', ''path'', ''rect'']
      then s\<lparr>fill := Some c\<rparr> else s)"

definition setStroke :: "string \<Rightarrow> shape \<Rightarrow> shape" where
  "setStroke c s =
     (if tagName s \<in> set [''line'', ''path''] \<and> stroke s \<noteq> None \<and> fill s = None
      then s\<lparr>stroke := Some c\<rparr> else s)"

definition setPartColor :: "string \<Rightarrow> string \<Rightarrow> world \<Rightarrow> world" where
  "setPartColor partId c w =
     (case getElementById w partId of
        None \<Rightarrow> w
      | Some part \<Rightarrow>
          updateElement partId
            (\<lambda>e. e\<lparr>shapes := map (setStroke c) (map (setFill c) (shapes e))\<rparr>) w)"

text \<open>
  \<open>initBodyVisualization\<close>: the flag is set, and every part on the page gets the
  transition class and the default colour.
\<close>

definition initPart :: "string \<times> jsstring list \<Rightarrow> world \<Rightarrow> world" where
  "initPart entry w =
     (case getElementById w (fst entry) of
        None \<Rightarrow> w
      | Some part \<Rightarrow>
          setPartColor (fst entry) COLORS_DEFAULT
            (updateElement (fst entry) (classList_add ''body-part-transition'') w))"

definition initBodyVisualization :: "world \<Rightarrow> world" where
  "initBodyVisualization w = fold initPart BODY_PART_MAPPING (w\<lparr>svgLoaded := True\<rparr>)"

text \<open>The body of the \<open>forEach\<close> of \<open>updateBodyVisualization\<close> for one part.\<close>

definition updatePart ::
  "(jsstring \<Rightarrow> jsstring) \<Rightarrow> jsstring list \<Rightarrow> jsstring list \<Rightarrow> string \<times> jsstring list
     \<Rightarrow> world \<Rightarrow> world" where
  "updatePart lower detected required entry w =
     (let partId = fst entry;
          st = partStatus lower detected required (snd entry);
          w1 = setPartColor partId (statusColor st) w
      in case getElementById w1 partId of
           None \<Rightarrow> w1
         | Some part \<Rightarrow>
             updateElement partId
               (\<lambda>e. let e1 = classList_removeAll [''glow-green'', ''glow-red''] e
                    in case statusGlow st of None \<Rightarrow> e1 | Some g \<Rightarrow> classList_add g e1) w1)"

text \<open>
  What one round of the loop does to the element of a part that is on the page: the
  shapes are recoloured, both glow classes are removed and the glow of the status, if it
  has one, is added.
\<close>

definition renderPart :: "regionStatus \<Rightarrow> element \<Rightarrow> element" where
  "renderPart st e =
     (let e0 = e\<lparr>shapes := map (setStroke (statusColor st)) (map (setFill (statusColor st)) (shapes e))\<rparr>;
          e1 = classList_removeAll [''glow-green'', ''glow-red''] e0
      in case statusGlow st of None \<Rightarrow> e1 | Some g \<Rightarrow> classList_add g e1)"

definition updateBodyVisualization :: "jsstring list \<Rightarrow> jsstring list \<Rightarrow> world \<Rightarrow> world" where
  "updateBodyVisualization detected required w =
     (if \<not> svgLoaded w then w
      else fold (updatePart (toLowerCase w) detected required) BODY_PART_MAPPING
             (w\<lparr>currentDetected := detected, currentRequired := required\<rparr>))"

text \<open>
  The regions whose computed status is \<open>REQUIRED_AND_MISSING\<close>, in the order of the
  mapping table.
\<close>

definition missingRegions ::
  "(jsstring \<Rightarrow> jsstring) \<Rightarrow> jsstring list \<Rightarrow> jsstring list \<Rightarrow> string list" where
  "missingRegions lower detected required =
     map fst (filter (\<lambda>entry. snd entry = REQUIRED_AND_MISSING)
       (computeRegionStatuses lower detected required))"

record summary =
  total :: nat
  detected :: nat
  missing :: nat
  missingList :: "jsstring list"
  allDetected :: bool

definition getStatusSummary :: "world \<Rightarrow> summary" where
  "getStatusSummary w =
     (let detectedLower = map (toLowerCase w) (currentDetected w);
          requiredLower = map (toLowerCase w) (currentRequired w);
          missing = filter (\<lambda>cls. cls \<notin> set detectedLower) requiredLower;
          detected = filter (\<lambda>cls. cls \<in> set detectedLower) requiredLower
      in \<lparr>total = length requiredLower,
          detected = length detected,
          missing = length missing,
          missingList = missing,
          allDetected = (length missing = 0)\<rparr>)"

section \<open>The socket handler\<close>

text \<open>
  The texts written to the page are ASCII in the model: a glyph outside ASCII (the bullet
  of the system status, the icons of the status panel) is written by its code point.
\<close>

record config_event =
  required_classes :: "jsstring list option"

record access_status_event =
  state :: string
  person_name :: "string option"
  message :: "string option"
  duration :: "real option"

text \<open>
  \<open>socket.on('config_update')\<close>: \<open>requiredClasses = data.required_classes || []\<close>,
  then the visualization is refreshed against the last detection snapshot (the body
  visualization script is loaded on the page, so the \<open>typeof\<close> test succeeds).
\<close>

definition on_config_update :: "config_event \<Rightarrow> world \<Rightarrow> world" where
  "on_config_update data w =
     (let w1 = w\<lparr>requiredClasses :=
                  (case required_classes data of Some r \<Rightarrow> r | None \<Rightarrow> [])\<rparr>
      in updateBodyVisualization (detectedClasses w1) (requiredClasses w1) w1)"

text \<open>\<open>socket.on('connect')\<close> and \<open>socket.on('disconnect')\<close>.\<close>

definition on_connect :: "world \<Rightarrow> error + world" where
  "on_connect w =
     seqE
       [derefUpdate ''system-status'' (\<lambda>e. e\<lparr>textContent := ''U+25CF System Active''\<rparr>),
        derefUpdate ''system-status'' (\<lambda>e. e\<lparr>color := ''#10B981''\<rparr>),
        \<lambda>w. Inr (socket_emit ''start_detection'' w)] w"

definition on_disconnect :: "world \<Rightarrow> error + world" where
  "on_disconnect w =
     seqE
       [derefUpdate ''system-status'' (\<lambda>e. e\<lparr>textContent := ''U+25CF Disconnected''\<rparr>),
        derefUpdate ''system-status'' (\<lambda>e. e\<lparr>color := ''#EF4444''\<rparr>)] w"

text \<open>The page lifecycle listeners.\<close>

definition on_beforeunload :: "world \<Rightarrow> error + world" where
  "on_beforeunload w = Inr (socket_emit ''stop_detection'' w)"

definition on_unload :: "world \<Rightarrow> error + world" where
  "on_unload w = Inr (socket_emit ''stop_detection'' w)"

definition on_visibilitychange :: "bool \<Rightarrow> world \<Rightarrow> error + world" where
  "on_visibilitychange hidden w =
     (if hidden then Inr (socket_emit ''stop_detection'' w)
      else Inr (socket_emit ''start_detection'' w))"

definition on_pagehide :: "world \<Rightarrow> error + world" where
  "on_pagehide w = Inr (socket_emit ''stop_detection'' w)"

text \<open>
  The signals the client reacts to: the two channel signals and the four page lifecycle
  events (\<open>VisibilityChange\<close> carries \<open>document.hidden\<close>).
\<close>

datatype lifecycle_event =
    Connect
  | Disconnect
  | BeforeUnload
  | Unload
  | VisibilityChange bool
  | PageHide

fun dispatch :: "lifecycle_event \<Rightarrow> world \<Rightarrow> error + world" where
  "dispatch Connect w = on_connect w"
| "dispatch Disconnect w = on_disconnect w"
| "dispatch BeforeUnload w = on_beforeunload w"
| "dispatch Unload w = on_unload w"
| "dispatch (VisibilityChange hidden) w = on_visibilitychange hidden w"
| "dispatch PageHide w = on_pagehide w"

text \<open>What a handler emitted on the socket, or the error it threw.\<close>

definition emissions :: "world \<Rightarrow> error + world \<Rightarrow> error + string list" where
  "emissions w r =
     (case r of
        Inl e \<Rightarrow> Inl e
      | Inr w' \<Rightarrow> Inr (drop (length (emitted w)) (emitted w')))"

text \<open>\<open>animateDoorProgress(duration)\<close>, the duration in seconds.\<close>

definition animateDoorProgress :: "real \<Rightarrow> world \<Rightarrow> error + world" where
  "animateDoorProgress dur w =
     seqE
       [derefUpdate ''door-progress-bar'' (\<lambda>e. e\<lparr>width := ''0%''\<rparr>),
        derefUpdate ''door-progress-bar'' (\<lambda>e. e\<lparr>transition := T_width_linear (dur * 1000)\<rparr>),
        \<lambda>w. Inr (setTimeout DoorProgressFill 50 w)] w"

text \<open>\<open>playAnimation(type)\<close> only writes to the console.\<close>

definition playAnimation :: "string \<Rightarrow> world \<Rightarrow> error + world" where
  "playAnimation type w = Inr w"

text \<open>
  \<open>createParticles(container, count)\<close>: the loop body draws the horizontal position and
  the animation delay, appends the particle and schedules its removal.
\<close>

definition createParticle :: "world \<Rightarrow> world" where
  "createParticle w =
     (let (r1, w1) = Math_random w;
          (r2, w2) = Math_random w1;
          p = \<lparr>pid = nextParticle w2, size_px = None, background = None,
               left_pct = r1 * 100, animationDelay_s = Some (r2 * 0.5)\<rparr>;
          w3 = w2\<lparr>particles := particles w2 @ [p], nextParticle := nextParticle w2 + 1\<rparr>
      in setTimeout (ParticleRemove (pid p)) 1500 w3)"

definition createParticles :: "nat \<Rightarrow> world \<Rightarrow> error + world" where
  "createParticles n w = Inr (fold (\<lambda>i. createParticle) [0..<n] w)"

definition playSuccessAnimation :: "world \<Rightarrow> error + world" where
  "playSuccessAnimation w =
     seqE
       [derefUpdate ''access-status'' (classList_add ''ripple-effect''),
        createParticles 20,
        \<lambda>w. Inr (setTimeout RippleEnd 1000 w)] w"

definition playDeniedAnimation :: "world \<Rightarrow> error + world" where
  "playDeniedAnimation w =
     seqE
       [derefUpdate ''access-status'' (classList_add ''shake-animation''),
        \<lambda>w. Inr (setTimeout DeniedShakeEnd 500 w)] w"

text \<open>
  \<open>socket.on('access_status_change')\<close>. The state is adopted first; the state classes are
  removed from the panel; then the \<open>switch\<close> runs the case of the state (a state name
  outside the six cases runs none).
\<close>

definition on_access_status_change :: "access_status_event \<Rightarrow> world \<Rightarrow> error + world" where
  "on_access_status_change data w =
     seqE
       [\<lambda>w. Inr (w\<lparr>currentState := state data\<rparr>),
        derefUpdate ''access-status'' (classList_removeAll [''granted'', ''denied'', ''checking'']),
        if state data = ''IDLE'' then
          seqE
            [derefUpdate ''access-status'' (classList_add ''checking''),
             derefUpdate ''status-icon'' (\<lambda>e. e\<lparr>textContent := ''U+1F50D''\<rparr>),
             derefUpdate ''status-text'' (\<lambda>e. e\<lparr>textContent := ''READY''\<rparr>),
             derefUpdate ''status-message''
               (\<lambda>e. e\<lparr>textContent := ''Please stand in front of camera''\<rparr>),
             derefUpdate ''status-user'' (\<lambda>e. e\<lparr>display := ''none''\<rparr>),
             derefUpdate ''door-progress'' (\<lambda>e. e\<lparr>display := ''none''\<rparr>)]
        else if state data = ''FACE_DETECTING'' then
          seqE
            [derefUpdate ''access-status'' (classList_add ''checking''),
             derefUpdate ''status-icon'' (\<lambda>e. e\<lparr>textContent := ''U+1F464''\<rparr>),
             derefUpdate ''status-text'' (\<lambda>e. e\<lparr>textContent := ''DETECTING FACE...''\<rparr>),
             derefUpdate ''status-message''
               (\<lambda>e. e\<lparr>textContent := ''Please look at the camera''\<rparr>),
             derefUpdate ''status-user'' (\<lambda>e. e\<lparr>display := ''none''\<rparr>),
             derefUpdate ''door-progress'' (\<lambda>e. e\<lparr>display := ''none''\<rparr>),
             derefUpdate ''status-icon'' (classList_add ''pulse-animation'')]
        else if state data = ''FACE_RECOGNIZED'' then
          seqE
            [derefUpdate ''access-status'' (classList_add ''checking''),
             derefUpdate ''status-icon'' (\<lambda>e. e\<lparr>textContent := ''U+2713''\<rparr>),
             derefUpdate ''status-text'' (\<lambda>e. e\<lparr>textContent := ''IDENTITY VERIFIED''\<rparr>),
             derefUpdate ''status-message'' (\<lambda>e. e\<lparr>textContent := ''Checking PPE...''\<rparr>),
             derefUpdate ''status-user''
               (\<lambda>e. e\<lparr>textContent := ''Welcome, '' @ jsToString (person_name data) @ ''!''\<rparr>),
             derefUpdate ''status-user'' (\<lambda>e. e\<lparr>display := ''block''\<rparr>),
             derefUpdate ''status-user'' (classList_add ''fade-in''),
             derefUpdate ''door-progress'' (\<lambda>e. e\<lparr>display := ''none''\<rparr>),
             playAnimation ''success-beep'']
        else if state data = ''PPE_CHECKING'' then
          seqE
            [derefUpdate ''access-status'' (classList_add ''checking''),
             derefUpdate ''status-icon'' (\<lambda>e. e\<lparr>textContent := ''U+1F50E''\<rparr>),
             derefUpdate ''status-text'' (\<lambda>e. e\<lparr>textContent := ''CHECKING PPE...''\<rparr>),
             derefUpdate ''status-message''
               (\<lambda>e. e\<lparr>textContent := jsOr (message data) ''Please show required PPE''\<rparr>),
             derefUpdate ''door-progress'' (\<lambda>e. e\<lparr>display := ''none''\<rparr>)]
        else if state data = ''ACCESS_GRANTED'' then
          seqE
            [derefUpdate ''access-status'' (classList_add ''granted''),
             derefUpdate ''status-icon'' (\<lambda>e. e\<lparr>textContent := ''U+2705''\<rparr>),
             derefUpdate ''status-text'' (\<lambda>e. e\<lparr>textContent := ''ACCESS GRANTED''\<rparr>),
             derefUpdate ''status-message'' (\<lambda>e. e\<lparr>textContent := ''Door opening...''\<rparr>),
             derefUpdate ''status-user''
               (\<lambda>e. e\<lparr>textContent := ''Welcome, '' @ jsToString (person_name data) @ ''!''\<rparr>),
             derefUpdate ''status-user'' (\<lambda>e. e\<lparr>display := ''block''\<rparr>),
             derefUpdate ''door-progress'' (\<lambda>e. e\<lparr>display := ''block''\<rparr>),
             animateDoorProgress
               (case duration data of None \<Rightarrow> 3 | Some d \<Rightarrow> if d = 0 then 3 else d),
             playAnimation ''access-granted'',
             playSuccessAnimation]
        else if state data = ''ACCESS_DENIED'' then
          seqE
            [derefUpdate ''access-status'' (classList_add ''denied''),
             derefUpdate ''status-icon'' (\<lambda>e. e\<lparr>textContent := ''U+274C''\<rparr>),
             derefUpdate ''status-text'' (\<lambda>e. e\<lparr>textContent := ''ACCESS DENIED''\<rparr>),
             derefUpdate ''status-message''
               (\<lambda>e. e\<lparr>textContent := jsOr (message data) ''Access requirements not met''\<rparr>),
             if jsTruthy (person_name data) then
               seqE
                 [derefUpdate ''status-user''
                    (\<lambda>e. e\<lparr>textContent := jsToString (person_name data)\<rparr>),
                  derefUpdate ''status-user'' (\<lambda>e. e\<lparr>display := ''block''\<rparr>)]
             else derefUpdate ''status-user'' (\<lambda>e. e\<lparr>display := ''none''\<rparr>),
             derefUpdate ''door-progress'' (\<lambda>e. e\<lparr>display := ''none''\<rparr>),
             playAnimation ''access-denied'',
             playDeniedAnimation]
        else Inr] w"

text \<open>The page carries the six elements of the status panel that the handler addresses.\<close>

definition statusPanelPresent :: "world \<Rightarrow> bool" where
  "statusPanelPresent w =
     list_all (\<lambda>i. doc w i \<noteq> None)
       [''access-status'', ''status-icon'', ''status-text'', ''status-message'',
        ''status-user'', ''door-progress'']"

section \<open>The animation controller\<close>

text \<open>
  The methods of \<open>AnimationController\<close>. Every method that addresses an element tests
  the reference before using it and returns when it is \<open>null\<close>.
\<close>

definition bodyParts :: "string list" where
  "bodyParts = [''head'', ''face'', ''eyes'', ''chest'', ''hands-left'', ''hands-right'', ''feet'']"

definition animateBodyPartsSuccess :: "world \<Rightarrow> error + world" where
  "animateBodyPartsSuccess w =
     Inr (fold (\<lambda>(index, partId). setTimeout (BodyPartScaleIn partId) (int index * 100))
            (enumerate 0 bodyParts) w)"

definition transitionStatusSection :: "string \<Rightarrow> world \<Rightarrow> error + world" where
  "transitionStatusSection type w =
     (case getElementById w ''access-status'' of
        None \<Rightarrow> Inr w
      | Some section \<Rightarrow>
          Inr (setTimeout StatusFadeIn 300
                 (updateElement ''access-status'' (classList_add ''fade-out'') w)))"

definition showWelcomeMessage :: "string option \<Rightarrow> world \<Rightarrow> error + world" where
  "showWelcomeMessage name w =
     (case getElementById w ''status-user'' of
        None \<Rightarrow> Inr w
      | Some userElement \<Rightarrow>
          Inr (setTimeout WelcomeSlideEnd 600
                 (updateElement ''status-user''
                    (\<lambda>e. classList_add ''slide-in-up''
                           (e\<lparr>textContent := ''Welcome, '' @ jsToString name @ ''!'',
                              display := ''block''\<rparr>)) w)))"

definition showDenialReason :: "string option \<Rightarrow> world \<Rightarrow> error + world" where
  "showDenialReason reason w =
     (case getElementById w ''status-message'' of
        None \<Rightarrow> Inr w
      | Some messageElement \<Rightarrow>
          Inr (setTimeout ReasonAttentionEnd 1000
                 (updateElement ''status-message'' (classList_add ''attention-animation'') w)))"

definition particleCount :: nat where
  "particleCount = 30"

definition colors :: "string list" where
  "colors = [''#10B981'', ''#34D399'', ''#6EE7B7'', ''#FFFFFF'']"

definition createSuccessParticles :: "world \<Rightarrow> error + world" where
  "createSuccessParticles w =
     (case getElementById w ''access-status'' of
        None \<Rightarrow> Inr w
      | Some container \<Rightarrow>
          Inr (fold (\<lambda>i. setTimeout SuccessParticleSpawn (int i * 50)) [0..<particleCount] w))"

text \<open>
  The callback of \<open>createSuccessParticles\<close>: three draws of \<open>Math.random\<close>, for the
  size \<open>Math.random() * 10 + 5\<close>, the colour \<open>colors[Math.floor(Math.random() *
  colors.length)]\<close> (an index outside the array reads \<open>undefined\<close>) and the position
  \<open>Math.random() * 100\<close>; the particle is appended and its removal scheduled.
\<close>

definition spawnSuccessParticle :: "world \<Rightarrow> error + world" where
  "spawnSuccessParticle w =
     (let (r1, w1) = Math_random w;
          (r2, w2) = Math_random w1;
          (r3, w3) = Math_random w2;
          k = \<lfloor>r2 * real (length colors)\<rfloor>;
          p = \<lparr>pid = nextParticle w3,
               size_px = Some (r1 * 10 + 5),
               background = (if 0 \<le> k \<and> k < int (length colors) then Some (colors ! nat k) else None),
               left_pct = r3 * 100,
               animationDelay_s = None\<rparr>;
          w4 = w3\<lparr>particles := particles w3 @ [p], nextParticle := nextParticle w3 + 1\<rparr>
      in Inr (setTimeout (SuccessParticleRemove (pid p)) 1500 w4))"

definition animateDoorOpening :: "real \<Rightarrow> world \<Rightarrow> error + world" where
  "animateDoorOpening dur w =
     (case (getElementById w ''door-progress'', getElementById w ''door-progress-bar'') of
        (Some progress, Some progressBar) \<Rightarrow>
          Inr (setTimeout (DoorOpeningFill dur) 50
                 (updateElement ''door-progress-bar'' (\<lambda>e. e\<lparr>width := ''0%'', transition := T_none\<rparr>)
                    (updateElement ''door-progress'' (\<lambda>e. e\<lparr>display := ''block''\<rparr>) w)))
      | _ \<Rightarrow> Inr w)"

definition shakeElement :: "string \<Rightarrow> world \<Rightarrow> error + world" where
  "shakeElement elementId w =
     (case getElementById w elementId of
        None \<Rightarrow> Inr w
      | Some element \<Rightarrow>
          Inr (setTimeout (ShakeEnd elementId) 500
                 (updateElement elementId (classList_add ''shake-animation'') w)))"

text \<open>
  \<open>highlightMissingPPE\<close> of the body visualization, called by the denied sequence: every
  part that is required and not detected in the current snapshot, and is on the page,
  gets the attention marker for 1000 ms.
\<close>

definition highlightPart :: "string \<times> jsstring list \<Rightarrow> world \<Rightarrow> world" where
  "highlightPart entry w =
     (if isRequired (toLowerCase w) (snd entry) (currentRequired w)
         \<and> \<not> isDetected (toLowerCase w) (snd entry) (currentDetected w)
      then (case getElementById w (fst entry) of
              None \<Rightarrow> w
            | Some part \<Rightarrow>
                setTimeout (MissingPartAttentionEnd (fst entry)) 1000
                  (updateElement (fst entry) (classList_add ''attention-animation'') w))
      else w)"

definition highlightMissingPPE :: "world \<Rightarrow> error + world" where
  "highlightMissingPPE w = Inr (fold highlightPart BODY_PART_MAPPING w)"

text \<open>
  The two global sequences. Each sets the flag, runs its first step at once and hands
  the later steps to \<open>setTimeout\<close>; the progress bar is opened with the constant 3000.
\<close>

definition playAccessGranted :: "string option \<Rightarrow> world \<Rightarrow> error + world" where
  "playAccessGranted personName w =
     seqE
       [\<lambda>w. Inr (w\<lparr>isAnimating := True\<rparr>),
        animateBodyPartsSuccess,
        \<lambda>w. Inr (setTimeout G_transitionStatusSection 200 w),
        \<lambda>w. Inr (setTimeout (G_showWelcomeMessage personName) 400 w),
        \<lambda>w. Inr (setTimeout G_createSuccessParticles 600 w),
        \<lambda>w. Inr (setTimeout G_animateDoorOpening 800 w),
        \<lambda>w. Inr (setTimeout G_done 4000 w)] w"

definition playAccessDenied :: "string option \<Rightarrow> world \<Rightarrow> error + world" where
  "playAccessDenied reason w =
     seqE
       [\<lambda>w. Inr (w\<lparr>isAnimating := True\<rparr>),
        shakeElement ''access-status'',
        \<lambda>w. Inr (setTimeout D_highlightMissingPPE 200 w),
        \<lambda>w. Inr (setTimeout (D_showDenialReason reason) 400 w),
        \<lambda>w. Inr (setTimeout D_done 2000 w)] w"

section \<open>Timer callbacks and the event loop\<close>

text \<open>
  What each callback does when its timer fires. A callback that holds a reference to an
  element it found earlier writes through that reference; the page keeps its elements
  (only particles are ever removed), so the write goes to the element of that identifier.
\<close>

fun exec :: "action \<Rightarrow> world \<Rightarrow> error + world" where
  "exec G_transitionStatusSection w = transitionStatusSection ''granted'' w"
| "exec (G_showWelcomeMessage personName) w = showWelcomeMessage personName w"
| "exec G_createSuccessParticles w = createSuccessParticles w"
| "exec G_animateDoorOpening w = animateDoorOpening 3000 w"
| "exec G_done w = Inr (w\<lparr>isAnimating := False\<rparr>)"
| "exec D_highlightMissingPPE w = highlightMissingPPE w"
| "exec (D_showDenialReason reason) w = showDenialReason reason w"
| "exec D_done w = Inr (w\<lparr>isAnimating := False\<rparr>)"
| "exec (BodyPartScaleIn partId) w =
     (case getElementById w partId of
        None \<Rightarrow> Inr w
      | Some part \<Rightarrow>
          Inr (setTimeout (BodyPartScaleEnd partId) 500
                 (updateElement partId
                    (\<lambda>e. classList_add ''scale-in'' (e\<lparr>transition := T_all_500ms_ease\<rparr>)) w)))"
| "exec (BodyPartScaleEnd partId) w =
     Inr (updateElement partId (classList_remove ''scale-in'') w)"
| "exec StatusFadeIn w =
     Inr (setTimeout StatusFadeEnd 500
            (updateElement ''access-status''
               (\<lambda>e. classList_add ''fade-in'' (classList_remove ''fade-out'' e)) w))"
| "exec StatusFadeEnd w = Inr (updateElement ''access-status'' (classList_remove ''fade-in'') w)"
| "exec WelcomeSlideEnd w = Inr (updateElement ''status-user'' (classList_remove ''slide-in-up'') w)"
| "exec ReasonAttentionEnd w =
     Inr (updateElement ''status-message'' (classList_remove ''attention-animation'') w)"
| "exec SuccessParticleSpawn w = spawnSuccessParticle w"
| "exec (SuccessParticleRemove n) w = Inr (w\<lparr>particles := filter (\<lambda>p. pid p \<noteq> n) (particles w)\<rparr>)"
| "exec (DoorOpeningFill dur) w =
     Inr (updateElement ''door-progress-bar''
            (\<lambda>e. e\<lparr>transition := T_width_linear dur, width := ''100%''\<rparr>) w)"
| "exec (ShakeEnd elementId) w =
     Inr (updateElement elementId (classList_remove ''shake-animation'') w)"
| "exec (MissingPartAttentionEnd partId) w =
     Inr (updateElement partId (classList_remove ''attention-animation'') w)"
| "exec DoorProgressFill w =
     Inr (updateElement ''door-progress-bar'' (\<lambda>e. e\<lparr>width := ''100%''\<rparr>) w)"
| "exec RippleEnd w = Inr (updateElement ''access-status'' (classList_remove ''ripple-effect'') w)"
| "exec DeniedShakeEnd w =
     Inr (updateElement ''access-status'' (classList_remove ''shake-animation'') w)"
| "exec (ParticleRemove n) w = Inr (w\<lparr>particles := filter (\<lambda>p. pid p \<noteq> n) (particles w)\<rparr>)"

text \<open>
  The event loop fires the pending timer that is due first, and among timers due at the
  same time the one registered first. Nothing but a firing removes a timer: the scripts
  keep no timer handle and never call \<open>clearTimeout\<close>.
\<close>

fun earliest :: "int \<times> action \<Rightarrow> (int \<times> action) list \<Rightarrow> int \<times> action" where
  "earliest best [] = best"
| "earliest best (t # ts) = (if fst t < fst best then earliest t ts else earliest best ts)"

definition nextTimer :: "(int \<times> action) list \<Rightarrow> (int \<times> action) option" where
  "nextTimer ts = (case ts of [] \<Rightarrow> None | t # rest \<Rightarrow> Some (earliest t rest))"

definition fire :: "int \<times> action \<Rightarrow> world \<Rightarrow> error + world" where
  "fire t w =
     exec (snd t)
       (w\<lparr>now := max (now w) (fst t),
          timers := remove1 t (timers w),
          fired := fired w @ [(max (now w) (fst t), snd t)]\<rparr>)"

definition step :: "world \<Rightarrow> error + world" where
  "step w = (case nextTimer (timers w) of None \<Rightarrow> Inr w | Some t \<Rightarrow> fire t w)"

text \<open>
  Letting time pass up to a deadline: every timer due by then fires, in order, and the
  clock ends at the deadline. The first argument bounds the number of firings; \<open>None\<close>
  means the bound was too small.
\<close>

fun advance :: "nat \<Rightarrow> int \<Rightarrow> world \<Rightarrow> (error + world) option" where
  "advance 0 deadline w =
     (case nextTimer (timers w) of
        None \<Rightarrow> Some (Inr (w\<lparr>now := max (now w) deadline\<rparr>))
      | Some t \<Rightarrow>
          if deadline < fst t then Some (Inr (w\<lparr>now := max (now w) deadline\<rparr>)) else None)"
| "advance (Suc n) deadline w =
     (case nextTimer (timers w) of
        None \<Rightarrow> Some (Inr (w\<lparr>now := max (now w) deadline\<rparr>))
      | Some t \<Rightarrow>
          if deadline < fst t then Some (Inr (w\<lparr>now := max (now w) deadline\<rparr>))
          else (case fire t w of
                  Inl e \<Rightarrow> Some (Inl e)
                | Inr w' \<Rightarrow> advance n deadline w'))"

text \<open>
  A session: calls arriving at given times (an inbound event reaching its handler, or a
  call that starts a sequence), each run after the timers due by its arrival have fired.
\<close>

fun session :: "nat \<Rightarrow> (int \<times> (world \<Rightarrow> error + world)) list \<Rightarrow> world \<Rightarrow> (error + world) option" where
  "session fuel [] w = Some (Inr w)"
| "session fuel (c # cs) w =
     (case advance fuel (fst c) w of
        None \<Rightarrow> None
      | Some (Inl e) \<Rightarrow> Some (Inl e)
      | Some (Inr w1) \<Rightarrow>
          (case snd c w1 of
             Inl e \<Rightarrow> Some (Inl e)
           | Inr w2 \<Rightarrow> session fuel cs w2))"

text \<open>
  A bound on the number of firings a pending callback stands for: itself and the
  callbacks it registers in turn. The sum over the pending timers bounds the firings
  that remain, so it tells how long the loop runs.
\<close>

fun weight :: "action \<Rightarrow> nat" where
  "weight G_transitionStatusSection = 3"
| "weight (G_showWelcomeMessage personName) = 2"
| "weight G_createSuccessParticles = 1 + 2 * particleCount"
| "weight G_animateDoorOpening = 2"
| "weight D_highlightMissingPPE = 1 + length BODY_PART_MAPPING"
| "weight (D_showDenialReason reason) = 2"
| "weight (BodyPartScaleIn partId) = 2"
| "weight StatusFadeIn = 2"
| "weight SuccessParticleSpawn = 2"
| "weight a = 1"

definition pendingWork :: "(int \<times> action) list \<Rightarrow> nat" where
  "pendingWork ts = sum_list (map (\<lambda>t. weight (snd t)) ts)"

text \<open>No pending timer is due in the past.\<close>

definition wellTimed :: "world \<Rightarrow> bool" where
  "wellTimed w = list_all (\<lambda>t. now w \<le> fst t) (timers w)"

text \<open>
  What a callback may do to the state of the loop itself: it leaves the clock and the
  trace alone and registers timers, none due before the present.
\<close>

definition appended :: "world \<Rightarrow> world \<Rightarrow> (int \<times> action) list \<Rightarrow> bool" where
  "appended w w' new =
     (now w' = now w \<and> fired w' = fired w \<and> timers w' = timers w @ new
      \<and> list_all (\<lambda>t. now w \<le> fst t) new)"

text \<open>
  The callbacks of the two sequences that look their rendering target up when they fire,
  and what it means for the target to be absent then. The door callback needs both the
  progress element and its bar; the highlight callback addresses every body part.
\<close>

fun targetAbsent :: "action \<Rightarrow> world \<Rightarrow> bool" where
  "targetAbsent G_transitionStatusSection w = (doc w ''access-status'' = None)"
| "targetAbsent (G_showWelcomeMessage personName) w = (doc w ''status-user'' = None)"
| "targetAbsent G_createSuccessParticles w = (doc w ''access-status'' = None)"
| "targetAbsent G_animateDoorOpening w =
     (doc w ''door-progress'' = None \<or> doc w ''door-progress-bar'' = None)"
| "targetAbsent D_highlightMissingPPE w =
     list_all (\<lambda>partId. doc w partId = None) (map fst BODY_PART_MAPPING)"
| "targetAbsent (D_showDenialReason reason) w = (doc w ''status-message'' = None)"
| "targetAbsent (BodyPartScaleIn partId) w = (doc w partId = None)"
| "targetAbsent a w = False"

text \<open>
  A later state extends an earlier one when clock and trace are the same and the timer
  list has only grown at its end; a function that runs script code is extending when
  every normal return of it extends the state it started in.
\<close>

definition extends :: "world \<Rightarrow> world \<Rightarrow> bool" where
  "extends w w' = (\<exists>new. appended w w' new)"

definition extending :: "(world \<Rightarrow> error + world) \<Rightarrow> bool" where
  "extending f = (\<forall>w w'. f w = Inr w' \<longrightarrow> extends w w')"

section \<open>A sample page\<close>

text \<open>
  A page carrying every element the scripts address, used to run the model on concrete
  inputs: the status panel, the progress indicator and the nine body parts, each part
  with a filled outline and a stroked line.
\<close>

definition blankElement :: element where
  "blankElement =
     \<lparr>classList = [], textContent = [], display = [], width = [], color = [],
      transition = T_unset, shapes = []\<rparr>"

definition bodyPartElement :: element where
  "bodyPartElement =
     blankElement\<lparr>shapes :=
       [\<lparr>tagName = ''path'', fill = Some ''#D1D5DB'', stroke = None\<rparr>,
        \<lparr>tagName = ''line'', fill = None, stroke = Some ''#D1D5DB''\<rparr>]\<rparr>"

definition samplePage :: "string \<Rightarrow> element option" where
  "samplePage =
     map_of
       ([(''system-status'', blankElement), (''access-status'', blankElement),
         (''status-icon'', blankElement), (''status-text'', blankElement),
         (''status-message'', blankElement), (''status-user'', blankElement),
         (''door-progress'', blankElement), (''door-progress-bar'', blankElement)]
        @ map (\<lambda>entry. (fst entry, bodyPartElement)) BODY_PART_MAPPING)"

text \<open>
  The engine of the sample page lower-cases and upper-cases as the Unicode case mapping
  does on the code units up to U+017F (Basic Latin, Latin-1 Supplement, Latin
  Extended-A), one unit at a time; the examples use no other unit, and a unit above
  that range is left alone. Most capital letters have their small letter 32 or 1 higher.
  The irregular ones: capital I with dot (U+0130) lower-cases to \<open>i\<close> and a combining
  dot; capital Y with diaeresis (U+0178) lower-cases to U+00FF; the micro sign
  upper-cases to the Greek capital mu; sharp s to \<open>SS\<close>; dotless i to \<open>I\<close>; U+0149 to
  two units; and the long s (U+017F), itself a small letter, upper-cases to \<open>S\<close>.
\<close>

definition latinLowerUnit :: "int \<Rightarrow> jsstring" where
  "latinLowerUnit c =
     (if (65 \<le> c \<and> c \<le> 90) \<or> (192 \<le> c \<and> c \<le> 214) \<or> (216 \<le> c \<and> c \<le> 222) then [c + 32]
      else if c = 304 then [105, 775]
      else if c = 376 then [255]
      else if ((256 \<le> c \<and> c \<le> 303) \<or> (306 \<le> c \<and> c \<le> 311) \<or> (330 \<le> c \<and> c \<le> 375))
              \<and> c mod 2 = 0 then [c + 1]
      else if ((313 \<le> c \<and> c \<le> 328) \<or> (377 \<le> c \<and> c \<le> 382)) \<and> c mod 2 = 1 then [c + 1]
      else [c])"

definition latinLower :: "jsstring \<Rightarrow> jsstring" where
  "latinLower s = concat (map latinLowerUnit s)"

definition latinUpperUnit :: "int \<Rightarrow> jsstring" where
  "latinUpperUnit c =
     (if (97 \<le> c \<and> c \<le> 122) \<or> (224 \<le> c \<and> c \<le> 246) \<or> (248 \<le> c \<and> c \<le> 254) then [c - 32]
      else if c = 181 then [924]
      else if c = 223 then [83, 83]
      else if c = 255 then [376]
      else if c = 305 then [73]
      else if c = 329 then [700, 78]
      else if c = 383 then [83]
      else if ((257 \<le> c \<and> c \<le> 303) \<or> (307 \<le> c \<and> c \<le> 311) \<or> (331 \<le> c \<and> c \<le> 375))
              \<and> c mod 2 = 1 then [c - 1]
      else if ((314 \<le> c \<and> c \<le> 328) \<or> (378 \<le> c \<and> c \<le> 382)) \<and> c mod 2 = 0 then [c - 1]
      else [c])"

definition latinUpper :: "jsstring \<Rightarrow> jsstring" where
  "latinUpper s = concat (map latinUpperUnit s)"

definition sampleWorld :: world where
  "sampleWorld =
     \<lparr>now = 0, timers = [], fired = [], doc = samplePage, particles = [],
      nextParticle = 0, mathRandom = (\<lambda>k. 1 / 2), drawn = 0,
      toLowerCase = latinLower, emitted = [],
      currentState = ''IDLE'', detectedClasses = [], requiredClasses = [],
      svgLoaded = True, currentDetected = [], currentRequired = [],
      isAnimating = False\<rparr>"

text \<open>
  The sample page 100 ms after the granted sequence was started on it, and a page without
  any element on which the denied sequence has just been started.
\<close>

definition afterGranted :: world where
  "afterGranted =
     (case session 20 [(0, playAccessGranted (Some ''Alex'')), (100, Inr)] sampleWorld of
        Some (Inr w) \<Rightarrow> w
      | _ \<Rightarrow> sampleWorld)"

definition deniedOnEmptyPage :: world where
  "deniedOnEmptyPage =
     (case playAccessDenied None (sampleWorld\<lparr>doc := Map.empty\<rparr>) of
        Inr w \<Rightarrow> w
      | Inl e \<Rightarrow> sampleWorld)"

text \<open>A status event that denies access.\<close>

definition deniedEvent :: access_status_event where
  "deniedEvent =
     \<lparr>state = ''ACCESS_DENIED'', person_name = Some ''Alex'',
      message = Some ''Missing: Helmet'', duration = None\<rparr>"

section \<open>Lemmas about the page and the timer list\<close>

lemma doc_updateElement:
  "doc (updateElement i f w) j = (if j = i then map_option f (doc w i) else doc w j)"
  by (simp add: updateElement_def split: option.splits)

lemma updateElement_keeps [simp]:
  "now (updateElement i f w) = now w"
  "timers (updateElement i f w) = timers w"
  "fired (updateElement i f w) = fired w"
  "particles (updateElement i f w) = particles w"
  "nextParticle (updateElement i f w) = nextParticle w"
  "mathRandom (updateElement i f w) = mathRandom w"
  "drawn (updateElement i f w) = drawn w"
  "toLowerCase (updateElement i f w) = toLowerCase w"
  "emitted (updateElement i f w) = emitted w"
  "currentState (updateElement i f w) = currentState w"
  "detectedClasses (updateElement i f w) = detectedClasses w"
  "requiredClasses (updateElement i f w) = requiredClasses w"
  "svgLoaded (updateElement i f w) = svgLoaded w"
  "currentDetected (updateElement i f w) = currentDetected w"
  "currentRequired (updateElement i f w) = currentRequired w"
  "isAnimating (updateElement i f w) = isAnimating w"
  by (simp_all add: updateElement_def split: option.splits)

lemma setTimeout_keeps [simp]:
  "now (setTimeout a d w) = now w"
  "fired (setTimeout a d w) = fired w"
  "particles (setTimeout a d w) = particles w"
  "nextParticle (setTimeout a d w) = nextParticle w"
  "mathRandom (setTimeout a d w) = mathRandom w"
  "drawn (setTimeout a d w) = drawn w"
  "toLowerCase (setTimeout a d w) = toLowerCase w"
  "emitted (setTimeout a d w) = emitted w"
  "currentState (setTimeout a d w) = currentState w"
  "detectedClasses (setTimeout a d w) = detectedClasses w"
  "requiredClasses (setTimeout a d w) = requiredClasses w"
  "svgLoaded (setTimeout a d w) = svgLoaded w"
  "currentDetected (setTimeout a d w) = currentDetected w"
  "currentRequired (setTimeout a d w) = currentRequired w"
  "isAnimating (setTimeout a d w) = isAnimating w"
  by (simp_all add: setTimeout_def split: option.splits)

lemma socket_emit_keeps [simp]:
  "now (socket_emit m w) = now w"
  "timers (socket_emit m w) = timers w"
  "fired (socket_emit m w) = fired w"
  "particles (socket_emit m w) = particles w"
  "nextParticle (socket_emit m w) = nextParticle w"
  "mathRandom (socket_emit m w) = mathRandom w"
  "drawn (socket_emit m w) = drawn w"
  "toLowerCase (socket_emit m w) = toLowerCase w"
  "currentState (socket_emit m w) = currentState w"
  "detectedClasses (socket_emit m w) = detectedClasses w"
  "requiredClasses (socket_emit m w) = requiredClasses w"
  "svgLoaded (socket_emit m w) = svgLoaded w"
  "currentDetected (socket_emit m w) = currentDetected w"
  "currentRequired (socket_emit m w) = currentRequired w"
  "isAnimating (socket_emit m w) = isAnimating w"
  by (simp_all add: socket_emit_def split: option.splits)

lemma doc_setTimeout [simp]: "doc (setTimeout a d w) = doc w"
  by (simp add: setTimeout_def)

lemma doc_socket_emit [simp]: "doc (socket_emit m w) = doc w"
  by (simp add: socket_emit_def)

lemma updateElement_doc:
  "doc (updateElement i f w) = (case doc w i of None \<Rightarrow> doc w | Some e \<Rightarrow> (doc w)(i \<mapsto> f e))"
  by (simp add: updateElement_def split: option.splits)

section \<open>Lemmas about the coverage mapping\<close>

lemma asciiLowerUnit_swapCaseUnit: "asciiLowerUnit (swapCaseUnit c) = asciiLowerUnit c"
  by (simp add: asciiLowerUnit_def swapCaseUnit_def)

lemma swapCaseUnit_ascii: "0 \<le> c \<and> c < 128 \<Longrightarrow> 0 \<le> swapCaseUnit c \<and> swapCaseUnit c < 128"
  by (simp add: swapCaseUnit_def)

lemma caseVariant_ascii:
  "caseVariant s t \<Longrightarrow> isAscii s \<Longrightarrow>
     isAscii t \<and> map asciiLowerUnit t = map asciiLowerUnit s"
  unfolding caseVariant_def isAscii_def
proof (induction rule: list_all2_induct)
  case Nil
  show ?case by simp
next
  case (Cons a s b t)
  from Cons.prems have a: "0 \<le> a \<and> a < 128" and s: "list_all (\<lambda>c. 0 \<le> c \<and> c < 128) s"
    by simp_all
  from Cons.hyps(1) a have "0 \<le> b \<and> b < 128"
    using swapCaseUnit_ascii [OF a] by auto
  moreover from Cons.hyps(1) have "asciiLowerUnit b = asciiLowerUnit a"
    by (auto simp: asciiLowerUnit_swapCaseUnit)
  ultimately show ?case using Cons.IH [OF s] by simp
qed

lemma foldsAscii_caseVariant:
  assumes "foldsAscii lower" and "isAscii s" and "caseVariant s t"
  shows "lower t = lower s"
proof -
  from caseVariant_ascii [OF assms(3,2)]
  have t: "isAscii t" and eq: "map asciiLowerUnit t = map asciiLowerUnit s" by simp_all
  from assms(1) t have "lower t = map asciiLowerUnit t" by (simp add: foldsAscii_def)
  moreover from assms(1,2) have "lower s = map asciiLowerUnit s" by (simp add: foldsAscii_def)
  ultimately show ?thesis using eq by simp
qed

lemma foldsAscii_caseVariants:
  "list_all2 caseVariant xs ys \<Longrightarrow> foldsAscii lower \<Longrightarrow> list_all isAscii xs \<Longrightarrow>
     map lower ys = map lower xs"
  by (induction rule: list_all2_induct) (auto simp: foldsAscii_caseVariant)

lemma foldsAscii_map:
  "foldsAscii lower \<Longrightarrow> list_all isAscii xs \<Longrightarrow> map lower xs = map (map asciiLowerUnit) xs"
  by (induction xs) (auto simp: foldsAscii_def)

lemma partStatus_lower:
  "map lower d' = map lower d \<Longrightarrow> map lower r' = map lower r \<Longrightarrow>
   partStatus lower d' r' cs = partStatus lower d r cs"
  by (simp add: partStatus_def isRequired_def isDetected_def)

lemma partStatus_ascii:
  assumes "foldsAscii lower" and "list_all isAscii d" and "list_all isAscii r"
    and "list_all isAscii cs"
  shows "partStatus lower d r cs = partStatus (map asciiLowerUnit) d r cs"
proof -
  have d: "map lower d = map (map asciiLowerUnit) d" by (rule foldsAscii_map [OF assms(1,2)])
  have r: "map lower r = map (map asciiLowerUnit) r" by (rule foldsAscii_map [OF assms(1,3)])
  have cs: "map lower cs = map (map asciiLowerUnit) cs" by (rule foldsAscii_map [OF assms(1,4)])
  show ?thesis
    unfolding partStatus_def isRequired_def isDetected_def d r cs ..
qed

lemma table_ascii: "list_all (\<lambda>entry. list_all isAscii (snd entry)) BODY_PART_MAPPING"
  by code_simp

lemma computeRegionStatuses_ascii:
  assumes "foldsAscii lower" and "list_all isAscii d" and "list_all isAscii r"
  shows "computeRegionStatuses lower d r = computeRegionStatuses (map asciiLowerUnit) d r"
proof -
  have "partStatus lower d r (snd entry) = partStatus (map asciiLowerUnit) d r (snd entry)"
    if "entry \<in> set BODY_PART_MAPPING" for entry
    using that table_ascii partStatus_ascii [OF assms] by (auto simp: list_all_iff)
  then show ?thesis
    by (auto simp: computeRegionStatuses_def)
qed

lemma updatePart_doc:
  "doc (updatePart lower d r (p, cs) w) =
     (case doc w p of None \<Rightarrow> doc w
      | Some e \<Rightarrow> (doc w)(p \<mapsto> renderPart (partStatus lower d r cs) e))"
  by (simp add: updatePart_def setPartColor_def getElementById_def updateElement_doc
      renderPart_def Let_def split: option.splits)

lemma updatePart_fields [simp]:
  "currentDetected (updatePart lower d r e w) = currentDetected w"
  "currentRequired (updatePart lower d r e w) = currentRequired w"
  "toLowerCase (updatePart lower d r e w) = toLowerCase w"
  by (simp_all add: updatePart_def setPartColor_def Let_def split: option.splits)

lemma fold_updatePart_fields [simp]:
  "currentDetected (fold (updatePart lower d r) es w) = currentDetected w"
  "currentRequired (fold (updatePart lower d r) es w) = currentRequired w"
  "toLowerCase (fold (updatePart lower d r) es w) = toLowerCase w"
  by (induction es arbitrary: w) simp_all

lemma fold_updatePart_doc:
  "distinct (map fst es) \<Longrightarrow>
   doc (fold (updatePart lower d r) es w) p =
     (case map_of es p of
        None \<Rightarrow> doc w p
      | Some cs \<Rightarrow> map_option (renderPart (partStatus lower d r cs)) (doc w p))"
proof (induction es arbitrary: w)
  case Nil
  then show ?case by simp
next
  case (Cons a es)
  obtain q cs where a: "a = (q, cs)" by (cases a)
  from Cons.prems a have q: "q \<notin> fst ` set es" and d: "distinct (map fst es)" by auto
  from q have nq: "map_of es q = None" by (simp add: map_of_eq_None_iff)
  show ?case
    using Cons.IH [OF d, of "updatePart lower d r (q, cs) w"] nq
    by (auto simp: a updatePart_doc split: option.splits)
qed

lemma distinct_keys: "distinct (map fst BODY_PART_MAPPING)"
  by (simp add: BODY_PART_MAPPING_def)

lemma updateBodyVisualization_doc:
  "svgLoaded w \<Longrightarrow>
   doc (updateBodyVisualization d r w) p =
     (case map_of BODY_PART_MAPPING p of
        None \<Rightarrow> doc w p
      | Some cs \<Rightarrow> map_option (renderPart (partStatus (toLowerCase w) d r cs)) (doc w p))"
  by (simp add: updateBodyVisualization_def fold_updatePart_doc [OF distinct_keys] split: option.splits)

lemma updateBodyVisualization_snapshot:
  "svgLoaded w \<Longrightarrow> currentDetected (updateBodyVisualization d r w) = d
     \<and> currentRequired (updateBodyVisualization d r w) = r"
  by (simp add: updateBodyVisualization_def)

lemma updateBodyVisualization_toLowerCase:
  "toLowerCase (updateBodyVisualization d r w) = toLowerCase w"
  by (simp add: updateBodyVisualization_def)

lemma renderPart_fill:
  "s \<in> set (shapes (renderPart st e)) \<Longrightarrow>
   tagName s \<in> set [''ellipse'', ''circle'', ''path'', ''rect''] \<Longrightarrow> fill s = Some (statusColor st)"
  by (cases st) (auto simp: renderPart_def classList_removeAll_def classList_remove_def
      classList_add_def setFill_def setStroke_def Let_def split: if_splits)

lemma renderPart_glow:
  "set (classList (renderPart st e)) \<inter> {''glow-green'', ''glow-red''} = set_option (statusGlow st)"
  by (cases st) (auto simp: renderPart_def classList_removeAll_def classList_remove_def
      classList_add_def Let_def split: if_splits)

lemma partStatus_NOT_REQUIRED:
  "(\<forall>cls \<in> set cs. lower cls \<notin> set (map lower r)) \<Longrightarrow> partStatus lower d r cs = NOT_REQUIRED"
  by (auto simp: partStatus_def isRequired_def list_ex_iff)

lemma missing_has_synonym:
  "partStatus lower d r cs = REQUIRED_AND_MISSING \<Longrightarrow>
   \<exists>c \<in> set cs. lower c \<in> set (filter (\<lambda>cls. cls \<notin> set (map lower d)) (map lower r))"
  by (auto simp: partStatus_def isRequired_def isDetected_def list_ex_iff split: if_splits)

lemma latinLowerUnit_ascii: "0 \<le> c \<and> c < 128 \<Longrightarrow> latinLowerUnit c = [asciiLowerUnit c]"
  by (simp add: latinLowerUnit_def asciiLowerUnit_def)

lemma latinLower_ascii: "isAscii s \<Longrightarrow> latinLower s = map asciiLowerUnit s"
  by (induction s) (simp_all add: isAscii_def latinLower_def latinLowerUnit_ascii)

lemma foldsAscii_latinLower: "foldsAscii latinLower"
  by (simp add: foldsAscii_def latinLower_ascii)

lemma toLowerCase_sampleWorld: "toLowerCase sampleWorld = latinLower"
  by (simp add: sampleWorld_def)

section \<open>Lemmas about the event loop\<close>

lemma appended_refl: "appended w w []"
  by (simp add: appended_def)

lemma appended_updateElement: "appended w (updateElement i f w) []"
  by (simp add: appended_def)

lemma fold_setTimeout:
  "fold (\<lambda>x. setTimeout (act x) (del x)) xs w =
     w\<lparr>timers := timers w @ map (\<lambda>x. (now w + max 0 (del x), act x)) xs\<rparr>"
  by (induction xs arbitrary: w) (simp_all add: setTimeout_def)

lemma weight_pos: "0 < weight a"
  by (cases a) simp_all

lemma fold_highlightPart:
  "\<exists>new. appended w (fold highlightPart es w) new \<and> pendingWork new \<le> length es
      \<and> currentDetected (fold highlightPart es w) = currentDetected w
      \<and> currentRequired (fold highlightPart es w) = currentRequired w"
proof (induction es arbitrary: w)
  case Nil
  show ?case by (simp add: appended_def pendingWork_def)
next
  case (Cons e es)
  have step: "\<exists>n1. appended w (highlightPart e w) n1 \<and> pendingWork n1 \<le> 1
      \<and> currentDetected (highlightPart e w) = currentDetected w
      \<and> currentRequired (highlightPart e w) = currentRequired w"
    by (auto simp: highlightPart_def appended_def pendingWork_def setTimeout_def
        getElementById_def split: option.splits)
  then obtain n1 where n1: "appended w (highlightPart e w) n1" "pendingWork n1 \<le> 1"
    by blast
  from Cons.IH [of "highlightPart e w"] obtain n2 where
    n2: "appended (highlightPart e w) (fold highlightPart es (highlightPart e w)) n2"
      "pendingWork n2 \<le> length es"
      "currentDetected (fold highlightPart es (highlightPart e w)) = currentDetected (highlightPart e w)"
      "currentRequired (fold highlightPart es (highlightPart e w)) = currentRequired (highlightPart e w)"
    by blast
  have "appended w (fold highlightPart (e # es) w) (n1 @ n2)"
    using n1(1) n2(1) by (simp add: appended_def)
  moreover have "pendingWork (n1 @ n2) \<le> length (e # es)"
    using n1(2) n2(2) by (simp add: pendingWork_def)
  ultimately show ?case using step n2(3,4) by auto
qed

lemma exec_effect:
  "\<exists>w' new. exec a w = Inr w' \<and> appended w w' new \<and> pendingWork new < weight a"
proof (cases a)
  case D_highlightMissingPPE
  from fold_highlightPart [of w BODY_PART_MAPPING] show ?thesis
    by (auto simp: D_highlightMissingPPE highlightMissingPPE_def)
next
  case G_createSuccessParticles
  show ?thesis
    by (cases "doc w ''access-status''")
       (simp_all add: G_createSuccessParticles createSuccessParticles_def getElementById_def
        fold_setTimeout appended_def pendingWork_def particleCount_def list_all_iff
        comp_def sum_list_triv)
next
  case SuccessParticleSpawn
  show ?thesis
    by (simp add: SuccessParticleSpawn spawnSuccessParticle_def Math_random_def Let_def
        appended_def pendingWork_def setTimeout_def)
next
  case G_animateDoorOpening
  show ?thesis
    by (simp add: G_animateDoorOpening animateDoorOpening_def getElementById_def
        appended_def pendingWork_def setTimeout_def split: option.splits)
qed (simp_all add: transitionStatusSection_def showWelcomeMessage_def showDenialReason_def
       getElementById_def appended_def pendingWork_def setTimeout_def split: option.splits)

lemma earliest_mem: "earliest b ts \<in> set (b # ts)"
  by (induction ts arbitrary: b) (auto split: if_splits)

lemma earliest_le_best: "fst (earliest b ts) \<le> fst b"
proof (induction ts arbitrary: b)
  case Nil
  show ?case by simp
next
  case (Cons t ts)
  show ?case
    using Cons.IH [of t] Cons.IH [of b] by (auto split: if_splits)
qed

lemma earliest_le: "x \<in> set ts \<Longrightarrow> fst (earliest b ts) \<le> fst x"
proof (induction ts arbitrary: b)
  case Nil
  then show ?case by simp
next
  case (Cons t ts)
  show ?case
  proof (cases "x = t")
    case True
    then show ?thesis
      using earliest_le_best [of t ts] earliest_le_best [of b ts] by (auto split: if_splits)
  next
    case False
    with Cons.prems have "x \<in> set ts" by simp
    then show ?thesis using Cons.IH by (auto split: if_splits)
  qed
qed

lemma nextTimer_None: "(nextTimer ts = None) = (ts = [])"
  by (simp add: nextTimer_def split: list.splits)

lemma nextTimer_mem: "nextTimer ts = Some t \<Longrightarrow> t \<in> set ts"
  using earliest_mem by (auto simp: nextTimer_def split: list.splits)

lemma nextTimer_min:
  assumes "nextTimer ts = Some t" and "x \<in> set ts"
  shows "fst t \<le> fst x"
proof (cases ts)
  case Nil
  with assms(2) show ?thesis by simp
next
  case (Cons b rest)
  with assms(1) have t: "t = earliest b rest" by (simp add: nextTimer_def)
  from assms(2) Cons have "x = b \<or> x \<in> set rest" by simp
  then show ?thesis
    using earliest_le_best [of b rest] earliest_le [of x rest b] t by blast
qed

lemma pendingWork_remove1:
  "t \<in> set ts \<Longrightarrow> pendingWork ts = weight (snd t) + pendingWork (remove1 t ts)"
  unfolding pendingWork_def by (rule sum_list_map_remove1)

lemma pendingWork_append [simp]: "pendingWork (xs @ ys) = pendingWork xs + pendingWork ys"
  by (simp add: pendingWork_def)

lemma pendingWork_zero: "pendingWork ts = 0 \<Longrightarrow> ts = []"
proof (cases ts)
  case Nil
  then show ?thesis by simp
next
  case (Cons t rest)
  assume "pendingWork ts = 0"
  with Cons weight_pos [of "snd t"] show ?thesis by (simp add: pendingWork_def)
qed

lemma fire_effect:
  "\<exists>w' new. fire t w = Inr w'
     \<and> now w' = max (now w) (fst t)
     \<and> fired w' = fired w @ [(max (now w) (fst t), snd t)]
     \<and> timers w' = remove1 t (timers w) @ new
     \<and> list_all (\<lambda>x. max (now w) (fst t) \<le> fst x) new
     \<and> pendingWork new < weight (snd t)"
  using exec_effect [of "snd t" "w\<lparr>now := max (now w) (fst t), timers := remove1 t (timers w),
      fired := fired w @ [(max (now w) (fst t), snd t)]\<rparr>"]
  by (auto simp: fire_def appended_def)

lemma fire_less_work:
  assumes "t \<in> set (timers w)" and "fire t w = Inr w'"
  shows "pendingWork (timers w') < pendingWork (timers w)"
  using fire_effect [of t w] assms pendingWork_remove1 [OF assms(1)] by auto

lemma advance_enough:
  "pendingWork (timers w) \<le> fuel \<Longrightarrow> \<exists>w'. advance fuel deadline w = Some (Inr w')"
proof (induction fuel arbitrary: w)
  case 0
  then have "timers w = []" by (simp add: pendingWork_zero)
  then show ?case by (simp add: nextTimer_def)
next
  case (Suc n)
  show ?case
  proof (cases "nextTimer (timers w)")
    case None
    then show ?thesis by simp
  next
    case (Some t)
    show ?thesis
    proof (cases "deadline < fst t")
      case True
      with Some show ?thesis by simp
    next
      case False
      from fire_effect [of t w] obtain w1 where w1: "fire t w = Inr w1" by blast
      from fire_less_work [OF nextTimer_mem [OF Some] w1] Suc.prems
      have "pendingWork (timers w1) \<le> n" by simp
      from Suc.IH [OF this] obtain w' where "advance n deadline w1 = Some (Inr w')" by blast
      with Some False w1 show ?thesis by simp
    qed
  qed
qed

lemma wellTimed_fire:
  assumes "wellTimed w" and "nextTimer (timers w) = Some t" and "fire t w = Inr w'"
  shows "wellTimed w' \<and> now w' = fst t"
proof -
  have le: "now w \<le> fst t"
    using assms(1) nextTimer_mem [OF assms(2)] by (auto simp: wellTimed_def list_all_iff)
  from fire_effect [of t w] assms(3) obtain new where
    e: "now w' = max (now w) (fst t)" "timers w' = remove1 t (timers w) @ new"
       "list_all (\<lambda>x. max (now w) (fst t) \<le> fst x) new"
    by auto
  have "\<forall>x \<in> set (remove1 t (timers w)). fst t \<le> fst x"
    using nextTimer_min [OF assms(2)] by (meson notin_set_remove1)
  with e le show ?thesis
    by (auto simp: wellTimed_def list_all_iff max_def)
qed

lemma advance_stop:
  assumes "wellTimed w"
    and "nextTimer (timers w) = None \<or> (\<exists>t. nextTimer (timers w) = Some t \<and> deadline < fst t)"
  shows "wellTimed (w\<lparr>now := max (now w) deadline\<rparr>)
     \<and> (\<forall>t \<in> set (timers w). deadline < fst t)"
proof -
  have late: "\<forall>x \<in> set (timers w). deadline < fst x"
  proof
    fix x assume x: "x \<in> set (timers w)"
    then have "nextTimer (timers w) \<noteq> None" by (auto simp: nextTimer_None)
    with assms(2) obtain t where t: "nextTimer (timers w) = Some t" "deadline < fst t" by auto
    from nextTimer_min [OF t(1) x] t(2) show "deadline < fst x" by simp
  qed
  moreover have "wellTimed (w\<lparr>now := max (now w) deadline\<rparr>)"
    using assms(1) late by (auto simp: wellTimed_def list_all_iff max_def)
  ultimately show ?thesis by blast
qed

lemma advance_result:
  assumes "advance fuel deadline w = Some (Inr w')" and "wellTimed w"
  shows "wellTimed w'
     \<and> (\<forall>t \<in> set (timers w). fst t \<le> deadline \<longrightarrow> t \<in> set (fired w'))
     \<and> (\<forall>t \<in> set (timers w). deadline < fst t \<longrightarrow> t \<in> set (timers w'))
     \<and> set (fired w) \<subseteq> set (fired w')
     \<and> (\<forall>t \<in> set (timers w'). deadline < fst t)"
  using assms
proof (induction fuel arbitrary: w)
  case 0
  from "0.prems"(1) have stop:
    "nextTimer (timers w) = None \<or> (\<exists>t. nextTimer (timers w) = Some t \<and> deadline < fst t)"
    and w': "w' = w\<lparr>now := max (now w) deadline\<rparr>"
    by (auto split: option.splits if_splits)
  from advance_stop [OF "0.prems"(2) stop] w' show ?case
    by (auto simp: not_less [symmetric])
next
  case (Suc n)
  show ?case
  proof (cases "nextTimer (timers w) = None \<or> (\<exists>t. nextTimer (timers w) = Some t \<and> deadline < fst t)")
    case True
    with Suc.prems(1) have w': "w' = w\<lparr>now := max (now w) deadline\<rparr>"
      by (auto split: option.splits if_splits)
    from advance_stop [OF Suc.prems(2) True] w' show ?thesis
      by (auto simp: not_less [symmetric])
  next
    case False
    then obtain t where Some: "nextTimer (timers w) = Some t" and due: "\<not> deadline < fst t"
      by auto
    from fire_effect [of t w] obtain w1 new where
      w1: "fire t w = Inr w1" "fired w1 = fired w @ [(max (now w) (fst t), snd t)]"
        "timers w1 = remove1 t (timers w) @ new"
      by blast
    from wellTimed_fire [OF Suc.prems(2) Some w1(1)] have wt: "wellTimed w1" ..
    have le: "now w \<le> fst t"
      using Suc.prems(2) nextTimer_mem [OF Some] by (auto simp: wellTimed_def list_all_iff)
    have adv: "advance n deadline w1 = Some (Inr w')"
      using Suc.prems(1) Some due w1(1) by simp
    note IH = Suc.IH [OF adv wt]
    have tf: "t \<in> set (fired w1)" using w1(2) le by (simp add: max_def)
    have pend: "x \<in> set (timers w1)" if "x \<in> set (timers w)" "x \<noteq> t" for x
      using that w1(3) by (simp add: in_set_remove1)
    have a: "\<forall>x \<in> set (timers w). fst x \<le> deadline \<longrightarrow> x \<in> set (fired w')"
      using IH tf pend by blast
    have b: "\<forall>x \<in> set (timers w). deadline < fst x \<longrightarrow> x \<in> set (timers w')"
      using IH pend due by blast
    have c: "set (fired w) \<subseteq> set (fired w')"
      using IH w1(2) by auto
    from IH a b c show ?thesis by blast
  qed
qed

section \<open>Lemmas about the two sequences\<close>

lemma playAccessGranted_result:
  "playAccessGranted personName w =
     Inr (w\<lparr>isAnimating := True,
            timers := timers w @
              [(now w, BodyPartScaleIn ''head''),
               (now w + 100, BodyPartScaleIn ''face''),
               (now w + 200, BodyPartScaleIn ''eyes''),
               (now w + 300, BodyPartScaleIn ''chest''),
               (now w + 400, BodyPartScaleIn ''hands-left''),
               (now w + 500, BodyPartScaleIn ''hands-right''),
               (now w + 600, BodyPartScaleIn ''feet''),
               (now w + 200, G_transitionStatusSection),
               (now w + 400, G_showWelcomeMessage personName),
               (now w + 600, G_createSuccessParticles),
               (now w + 800, G_animateDoorOpening),
               (now w + 4000, G_done)]\<rparr>)"
  by (simp add: playAccessGranted_def animateBodyPartsSuccess_def bodyParts_def bindE_def
      setTimeout_def)

lemma playAccessDenied_result:
  "playAccessDenied reason w =
     Inr ((updateElement ''access-status'' (classList_add ''shake-animation'') w)
           \<lparr>isAnimating := True,
            timers := timers w @
              (if doc w ''access-status'' = None then []
               else [(now w + 500, ShakeEnd ''access-status'')]) @
              [(now w + 200, D_highlightMissingPPE),
               (now w + 400, D_showDenialReason reason),
               (now w + 2000, D_done)]\<rparr>)"
  by (cases "doc w ''access-status''")
     (simp_all add: playAccessDenied_def shakeElement_def bindE_def setTimeout_def
      getElementById_def updateElement_def)

lemma playAccessDenied_work:
  "playAccessDenied reason w = Inr w' \<Longrightarrow>
     pendingWork (timers w') \<le> pendingWork (timers w) + 14"
  by (auto simp: playAccessDenied_result pendingWork_def BODY_PART_MAPPING_def)

lemma afterGranted_facts:
  "wellTimed afterGranted"
  "(600, G_createSuccessParticles) \<in> set (timers afterGranted)"
  "pendingWork (timers afterGranted) \<le> 86"
  "now afterGranted = 100"
  by code_simp+

lemma fold_highlightPart_absent:
  "list_all (\<lambda>partId. doc w partId = None) (map fst es) \<Longrightarrow> fold highlightPart es w = w"
  by (induction es) (simp_all add: highlightPart_def getElementById_def)

lemma exec_absent: "targetAbsent a w \<Longrightarrow> exec a w = Inr w"
proof (cases a)
  case D_highlightMissingPPE
  assume "targetAbsent a w"
  with D_highlightMissingPPE show ?thesis
    by (simp add: highlightMissingPPE_def fold_highlightPart_absent)
next
  case G_animateDoorOpening
  assume "targetAbsent a w"
  with G_animateDoorOpening show ?thesis
    by (auto simp: animateDoorOpening_def getElementById_def split: option.splits)
qed (simp_all add: transitionStatusSection_def showWelcomeMessage_def
       createSuccessParticles_def showDenialReason_def getElementById_def)

lemma deniedOnEmptyPage_facts:
  "wellTimed deniedOnEmptyPage"
  "pendingWork (timers deniedOnEmptyPage) \<le> 20"
  "timers deniedOnEmptyPage
     = [(200, D_highlightMissingPPE), (400, D_showDenialReason None), (2000, D_done)]"
  "targetAbsent D_highlightMissingPPE deniedOnEmptyPage"
  "doc deniedOnEmptyPage ''access-status'' = None"
  by code_simp+

lemma extends_refl: "extends w w"
  using appended_refl by (auto simp: extends_def)

lemma extends_trans: "extends w w1 \<Longrightarrow> extends w1 w2 \<Longrightarrow> extends w w2"
  by (auto simp: extends_def appended_def)

lemma extends_updateElement: "extends w (updateElement i f w)"
  using appended_updateElement by (auto simp: extends_def)

lemma extends_setTimeout: "extends w (setTimeout a d w)"
  by (auto simp: extends_def appended_def setTimeout_def)

lemma extending_derefUpdate: "extending (derefUpdate i f)"
  by (auto simp: extending_def derefUpdate_def extends_updateElement split: option.splits)

lemma extending_seqE: "list_all extending fs \<Longrightarrow> extending (seqE fs)"
proof (induction fs)
  case Nil
  show ?case by (simp add: extending_def extends_refl)
next
  case (Cons f fs)
  then have f: "extending f" and fs: "extending (seqE fs)" by simp_all
  show ?case
    unfolding extending_def
  proof (intro allI impI)
    fix w w' assume "seqE (f # fs) w = Inr w'"
    then obtain w1 where w1: "f w = Inr w1" "seqE fs w1 = Inr w'"
      by (auto simp: bindE_def split: sum.splits)
    from f w1(1) have "extends w w1" by (simp add: extending_def)
    moreover from fs w1(2) have "extends w1 w'" by (simp add: extending_def)
    ultimately show "extends w w'" by (rule extends_trans)
  qed
qed

lemma extending_if: "extending f \<Longrightarrow> extending g \<Longrightarrow> extending (if c then f else g)"
  by simp

lemma extending_Inr: "extending Inr"
  by (simp add: extending_def extends_refl)

lemma extending_setTimeout: "extending (\<lambda>w. Inr (setTimeout a d w))"
  by (auto simp: extending_def extends_setTimeout)

lemma extending_currentState: "extending (\<lambda>w. Inr (w\<lparr>currentState := s\<rparr>))"
  by (auto simp: extending_def extends_def appended_def)

lemma extends_createParticle: "extends w (createParticle w)"
  by (simp add: createParticle_def Math_random_def Let_def extends_def appended_def
      setTimeout_def)

lemma extends_fold_createParticle: "extends w (fold (\<lambda>i. createParticle) xs w)"
proof (induction xs arbitrary: w)
  case Nil
  show ?case by (simp add: extends_refl)
next
  case (Cons x xs)
  show ?case
    using extends_trans [OF extends_createParticle Cons.IH] by simp
qed

lemma extending_createParticles: "extending (createParticles n)"
  using extends_fold_createParticle by (auto simp: extending_def createParticles_def)

lemma extending_playAnimation: "extending (playAnimation type)"
  by (auto simp: extending_def playAnimation_def extends_refl)

lemmas extending_intros = extending_seqE extending_if extending_Inr extending_setTimeout
  extending_currentState extending_derefUpdate extending_createParticles
  extending_playAnimation

lemma extending_animateDoorProgress: "extending (animateDoorProgress dur)"
proof -
  have eq: "animateDoorProgress dur = seqE
       [derefUpdate ''door-progress-bar'' (\<lambda>e. e\<lparr>width := ''0%''\<rparr>),
        derefUpdate ''door-progress-bar'' (\<lambda>e. e\<lparr>transition := T_width_linear (dur * 1000)\<rparr>),
        \<lambda>w. Inr (setTimeout DoorProgressFill 50 w)]"
    by (rule ext) (simp only: animateDoorProgress_def)
  show ?thesis
    unfolding eq by (auto intro!: extending_intros simp del: seqE.simps)
qed

lemma extending_playSuccessAnimation: "extending playSuccessAnimation"
proof -
  have eq: "playSuccessAnimation = seqE
       [derefUpdate ''access-status'' (classList_add ''ripple-effect''),
        createParticles 20,
        \<lambda>w. Inr (setTimeout RippleEnd 1000 w)]"
    by (rule ext) (simp only: playSuccessAnimation_def)
  show ?thesis
    unfolding eq by (auto intro!: extending_intros simp del: seqE.simps)
qed

lemma extending_playDeniedAnimation: "extending playDeniedAnimation"
proof -
  have eq: "playDeniedAnimation = seqE
       [derefUpdate ''access-status'' (classList_add ''shake-animation''),
        \<lambda>w. Inr (setTimeout DeniedShakeEnd 500 w)]"
    by (rule ext) (simp only: playDeniedAnimation_def)
  show ?thesis
    unfolding eq by (auto intro!: extending_intros simp del: seqE.simps)
qed

lemma extending_on_access_status_change: "extending (on_access_status_change data)"
  unfolding extending_def on_access_status_change_def
  apply (fold extending_def)
  apply (auto intro!: extending_intros extending_animateDoorProgress
      extending_playSuccessAnimation extending_playDeniedAnimation simp del: seqE.simps)
  done

lemma extending_playAccessGranted: "extending (playAccessGranted personName)"
  by (auto simp: extending_def extends_def appended_def playAccessGranted_result)

lemma extending_playAccessDenied: "extending (playAccessDenied reason)"
  by (auto simp: extending_def extends_def appended_def playAccessDenied_result)

lemma extends_run:
  assumes "wellTimed w" and "extends w w1"
  shows "wellTimed w1
      \<and> (\<forall>t \<in> set (timers w). t \<in> set (timers w1))
      \<and> (\<forall>fuel deadline. pendingWork (timers w1) \<le> fuel \<longrightarrow>
           (\<exists>w2. advance fuel deadline w1 = Some (Inr w2)
              \<and> (\<forall>t \<in> set (timers w). fst t \<le> deadline \<longrightarrow> t \<in> set (fired w2))))"
proof -
  from assms(2) obtain new where new: "now w1 = now w" "timers w1 = timers w @ new"
      "list_all (\<lambda>t. now w \<le> fst t) new"
    by (auto simp: extends_def appended_def)
  from assms(1) new have wt: "wellTimed w1" by (simp add: wellTimed_def)
  from new(2) have keep: "\<forall>t \<in> set (timers w). t \<in> set (timers w1)" by simp
  have run: "\<exists>w2. advance fuel deadline w1 = Some (Inr w2)
      \<and> (\<forall>t \<in> set (timers w). fst t \<le> deadline \<longrightarrow> t \<in> set (fired w2))"
    if "pendingWork (timers w1) \<le> fuel" for fuel deadline
  proof -
    from advance_enough [OF that] obtain w2 where
      w2: "advance fuel deadline w1 = Some (Inr w2)" by blast
    from advance_result [OF w2 wt] keep show ?thesis using w2 by blast
  qed
  from wt keep run show ?thesis by blast
qed

lemma deniedEvent_afterGranted:
  "case on_access_status_change deniedEvent afterGranted of
     Inr w \<Rightarrow> pendingWork (timers w) \<le> 100
   | Inl e \<Rightarrow> False"
  by code_simp

section \<open>Properties of the coverage mapping and its summary\<close>

text \<open>
  Claim C2, as the code has it. After a refresh of the visualization with the detected and
  required classes of a snapshot, \<open>missingList\<close> of the summary is the list of the
  lower-cased required class names that do not occur among the lower-cased detected
  class names, in the order of the required list: class names, not region identifiers.
  Every region whose status is \<open>REQUIRED_AND_MISSING\<close> for that snapshot has a synonym
  whose lower-cased name is in \<open>missingList\<close>.
\<close>

theorem missingList_is_missing_classes:
  assumes "svgLoaded w"
  shows "missingList (getStatusSummary (updateBodyVisualization d r w))
           = filter (\<lambda>cls. cls \<notin> set (map (toLowerCase w) d)) (map (toLowerCase w) r)
         \<and> (\<forall>entry \<in> set BODY_PART_MAPPING.
               partStatus (toLowerCase w) d r (snd entry) = REQUIRED_AND_MISSING \<longrightarrow>
               (\<exists>c \<in> set (snd entry). toLowerCase w c
                  \<in> set (missingList (getStatusSummary (updateBodyVisualization d r w)))))"
proof -
  have snap: "currentDetected (updateBodyVisualization d r w) = d"
      "currentRequired (updateBodyVisualization d r w) = r"
    using assms updateBodyVisualization_snapshot by blast+
  have ml: "missingList (getStatusSummary (updateBodyVisualization d r w))
           = filter (\<lambda>cls. cls \<notin> set (map (toLowerCase w) d)) (map (toLowerCase w) r)"
    unfolding getStatusSummary_def Let_def snap updateBodyVisualization_toLowerCase
    by (simp only: summary.simps)
  show ?thesis
    unfolding ml using missing_has_synonym by blast
qed

text \<open>
  The theorem at a snapshot with nothing detected and gloves and boots required: the hand
  regions are missing and their synonym \<open>gloves\<close> is in the list.
\<close>

theorem missingList_is_missing_classes_witness:
  "svgLoaded sampleWorld
   \<and> missingList (getStatusSummary
         (updateBodyVisualization [] [str ''Gloves'', str ''Boots''] sampleWorld))
       = [str ''gloves'', str ''boots'']
   \<and> (''hands-left'', [str ''Hands'', str ''Gloves'']) \<in> set BODY_PART_MAPPING
   \<and> partStatus (toLowerCase sampleWorld) [] [str ''Gloves'', str ''Boots'']
        [str ''Hands'', str ''Gloves''] = REQUIRED_AND_MISSING
   \<and> toLowerCase sampleWorld (str ''Gloves'')
       \<in> set (missingList (getStatusSummary
             (updateBodyVisualization [] [str ''Gloves'', str ''Boots''] sampleWorld)))"
proof -
  have s: "svgLoaded sampleWorld" by (simp add: sampleWorld_def)
  have f: "filter (\<lambda>cls. cls \<notin> set (map (toLowerCase sampleWorld) []))
      (map (toLowerCase sampleWorld) [str ''Gloves'', str ''Boots''])
        = [str ''gloves'', str ''boots'']"
    unfolding toLowerCase_sampleWorld by code_simp
  have m: "(''hands-left'', [str ''Hands'', str ''Gloves'']) \<in> set BODY_PART_MAPPING"
    by (simp add: BODY_PART_MAPPING_def)
  have p: "partStatus (toLowerCase sampleWorld) [] [str ''Gloves'', str ''Boots'']
        [str ''Hands'', str ''Gloves''] = REQUIRED_AND_MISSING"
    unfolding toLowerCase_sampleWorld by code_simp
  have g: "toLowerCase sampleWorld (str ''Gloves'') \<in> set [str ''gloves'', str ''boots'']"
    unfolding toLowerCase_sampleWorld by code_simp
  from missingList_is_missing_classes [OF s, of "[]" "[str ''Gloves'', str ''Boots'']"]
  have "missingList (getStatusSummary
         (updateBodyVisualization [] [str ''Gloves'', str ''Boots''] sampleWorld))
       = [str ''gloves'', str ''boots'']"
    unfolding f by blast
  with s m p g show ?thesis by simp
qed

text \<open>
  Claim C2 as stated fails: with gloves required and nothing detected the summary lists
  the class name \<open>gloves\<close>, while the regions marked \<open>REQUIRED_AND_MISSING\<close> are the
  two hand regions.
\<close>

theorem missingList_not_regions_counterexample:
  "missingList (getStatusSummary (updateBodyVisualization [] [str ''Gloves''] sampleWorld))
     = [str ''gloves'']
   \<and> missingRegions (toLowerCase sampleWorld)
        (currentDetected (updateBodyVisualization [] [str ''Gloves''] sampleWorld))
        (currentRequired (updateBodyVisualization [] [str ''Gloves''] sampleWorld))
     = [''hands-left'', ''hands-right'']
   \<and> set (missingList (getStatusSummary
          (updateBodyVisualization [] [str ''Gloves''] sampleWorld)))
     \<noteq> set (map str (missingRegions (toLowerCase sampleWorld)
        (currentDetected (updateBodyVisualization [] [str ''Gloves''] sampleWorld))
        (currentRequired (updateBodyVisualization [] [str ''Gloves''] sampleWorld))))"
proof -
  have s: "svgLoaded sampleWorld" by (simp add: sampleWorld_def)
  have snap: "currentDetected (updateBodyVisualization [] [str ''Gloves''] sampleWorld) = []"
      "currentRequired (updateBodyVisualization [] [str ''Gloves''] sampleWorld)
         = [str ''Gloves'']"
    using s updateBodyVisualization_snapshot by blast+
  have ml: "missingList (getStatusSummary
        (updateBodyVisualization [] [str ''Gloves''] sampleWorld)) = [str ''gloves'']"
    unfolding getStatusSummary_def Let_def snap updateBodyVisualization_toLowerCase
      toLowerCase_sampleWorld
    by code_simp
  have mr: "missingRegions (toLowerCase sampleWorld) [] [str ''Gloves'']
      = [''hands-left'', ''hands-right'']"
    unfolding toLowerCase_sampleWorld by code_simp
  have ne: "set [str ''gloves''] \<noteq> set (map str [''hands-left'', ''hands-right''])"
    by (simp add: str_def)
  show ?thesis unfolding snap ml mr using ne by simp
qed

text \<open>
  Claim C6. For every detected set, a region none of whose synonyms is (up to letter
  case) among the required classes has the status \<open>NOT_REQUIRED\<close>. With an empty
  required list every region is \<open>NOT_REQUIRED\<close>; and when a configuration update with an
  empty list arrives on a loaded visualization, whatever detection snapshot the handler
  holds, every body part on the page is painted with the not-required colour and loses
  both glow classes.
\<close>

theorem not_required_without_requirement:
  "((\<forall>cls \<in> set partClasses. lower cls \<notin> set (map lower r))
      \<longrightarrow> partStatus lower d r partClasses = NOT_REQUIRED)
   \<and> (\<forall>entry \<in> set (computeRegionStatuses lower d []). snd entry = NOT_REQUIRED)
   \<and> (svgLoaded w \<longrightarrow>
        (\<forall>partId \<in> set (map fst BODY_PART_MAPPING). \<forall>e. doc w partId = Some e \<longrightarrow>
          (\<exists>e'. doc (on_config_update \<lparr>required_classes = Some []\<rparr> w) partId = Some e'
             \<and> (\<forall>s \<in> set (shapes e').
                   tagName s \<in> set [''ellipse'', ''circle'', ''path'', ''rect'']
                   \<longrightarrow> fill s = Some COLORS_NOT_REQUIRED)
             \<and> ''glow-green'' \<notin> set (classList e')
             \<and> ''glow-red'' \<notin> set (classList e'))))"
proof -
  have pure: "(\<forall>cls \<in> set partClasses. lower cls \<notin> set (map lower r))
      \<longrightarrow> partStatus lower d r partClasses = NOT_REQUIRED"
    using partStatus_NOT_REQUIRED by blast
  have none: "partStatus lw dd [] cs = NOT_REQUIRED" for lw dd cs
    by (rule partStatus_NOT_REQUIRED) simp
  have all: "\<forall>entry \<in> set (computeRegionStatuses lower d []). snd entry = NOT_REQUIRED"
    by (auto simp: computeRegionStatuses_def none)
  have render: "\<exists>e'. doc (on_config_update \<lparr>required_classes = Some []\<rparr> w) partId = Some e'
             \<and> (\<forall>s \<in> set (shapes e').
                   tagName s \<in> set [''ellipse'', ''circle'', ''path'', ''rect'']
                   \<longrightarrow> fill s = Some COLORS_NOT_REQUIRED)
             \<and> ''glow-green'' \<notin> set (classList e')
             \<and> ''glow-red'' \<notin> set (classList e')"
    if loaded: "svgLoaded w" and key: "partId \<in> set (map fst BODY_PART_MAPPING)"
      and present: "doc w partId = Some e" for partId e
  proof -
    from key obtain cs where cs: "map_of BODY_PART_MAPPING partId = Some cs"
      by (metis map_of_eq_None_iff not_Some_eq set_map)
    have d: "doc (on_config_update \<lparr>required_classes = Some []\<rparr> w) partId
        = Some (renderPart NOT_REQUIRED e)"
      using loaded present cs
      by (simp add: on_config_update_def Let_def updateBodyVisualization_doc none)
    have f: "\<forall>s \<in> set (shapes (renderPart NOT_REQUIRED e)).
        tagName s \<in> set [''ellipse'', ''circle'', ''path'', ''rect'']
          \<longrightarrow> fill s = Some COLORS_NOT_REQUIRED"
      using renderPart_fill [of _ NOT_REQUIRED e] by auto
    have g: "''glow-green'' \<notin> set (classList (renderPart NOT_REQUIRED e))
        \<and> ''glow-red'' \<notin> set (classList (renderPart NOT_REQUIRED e))"
      using renderPart_glow [of NOT_REQUIRED e] by auto
    from d f g show ?thesis by blast
  qed
  from pure all render show ?thesis by blast
qed

text \<open>
  The theorem at the head region with a helmet detected and only gloves required, and at
  a configuration update that empties the requirements while a helmet is detected.
\<close>

theorem not_required_without_requirement_witness:
  "toLowerCase sampleWorld (str ''Head'')
      \<notin> set (map (toLowerCase sampleWorld) [str ''Gloves''])
   \<and> toLowerCase sampleWorld (str ''Helmet'')
      \<notin> set (map (toLowerCase sampleWorld) [str ''Gloves''])
   \<and> partStatus (toLowerCase sampleWorld) [str ''helmet''] [str ''Gloves'']
        [str ''Head'', str ''Helmet''] = NOT_REQUIRED
   \<and> snd (hd (computeRegionStatuses (toLowerCase sampleWorld) [str ''helmet''] []))
        = NOT_REQUIRED
   \<and> svgLoaded (sampleWorld\<lparr>detectedClasses := [str ''helmet''],
                            requiredClasses := [str ''Helmet'']\<rparr>)
   \<and> ''head'' \<in> set (map fst BODY_PART_MAPPING)
   \<and> doc (sampleWorld\<lparr>detectedClasses := [str ''helmet''],
                      requiredClasses := [str ''Helmet'']\<rparr>) ''head''
       = Some bodyPartElement
   \<and> (\<exists>e'. doc (on_config_update \<lparr>required_classes = Some []\<rparr>
                 (sampleWorld\<lparr>detectedClasses := [str ''helmet''],
                              requiredClasses := [str ''Helmet'']\<rparr>))
             ''head'' = Some e'
          \<and> ''glow-green'' \<notin> set (classList e') \<and> ''glow-red'' \<notin> set (classList e'))"
proof -
  let ?w = "sampleWorld\<lparr>detectedClasses := [str ''helmet''],
                        requiredClasses := [str ''Helmet'']\<rparr>"
  let ?lower = "toLowerCase sampleWorld"
  note T = not_required_without_requirement
    [of "[str ''Head'', str ''Helmet'']" ?lower "[str ''Gloves'']" "[str ''helmet'']" ?w]
  have h: "?lower (str ''Head'') \<notin> set (map ?lower [str ''Gloves''])
      \<and> ?lower (str ''Helmet'') \<notin> set (map ?lower [str ''Gloves''])"
    unfolding toLowerCase_sampleWorld by code_simp
  then have hall: "\<forall>cls \<in> set [str ''Head'', str ''Helmet''].
      ?lower cls \<notin> set (map ?lower [str ''Gloves''])"
    by simp
  have l: "svgLoaded ?w" by (simp add: sampleWorld_def)
  have k: "''head'' \<in> set (map fst BODY_PART_MAPPING)" by (simp add: BODY_PART_MAPPING_def)
  have d: "doc ?w ''head'' = Some bodyPartElement"
    by (simp add: sampleWorld_def samplePage_def BODY_PART_MAPPING_def)
  have ne: "computeRegionStatuses ?lower [str ''helmet''] [] \<noteq> []"
    by (simp add: computeRegionStatuses_def BODY_PART_MAPPING_def)
  from T hall have a: "partStatus ?lower [str ''helmet''] [str ''Gloves'']
      [str ''Head'', str ''Helmet''] = NOT_REQUIRED"
    by blast
  from T ne have b: "snd (hd (computeRegionStatuses ?lower [str ''helmet''] [])) = NOT_REQUIRED"
    by (metis hd_in_set)
  from T l k d have c: "\<exists>e'. doc (on_config_update \<lparr>required_classes = Some []\<rparr> ?w) ''head'' = Some e'
          \<and> ''glow-green'' \<notin> set (classList e') \<and> ''glow-red'' \<notin> set (classList e')"
    by blast
  from h a b l k d c show ?thesis by blast
qed

text \<open>
  Claim C7, as the code has it. The coverage mapping is a function of the two class lists
  and of the lower-casing of the engine, and it is insensitive to the case of ASCII
  letters: on an engine whose \<open>toLowerCase\<close> maps a string of ASCII characters unit by
  unit, \<open>A\<close> to \<open>Z\<close> to \<open>a\<close> to \<open>z\<close> (as \<open>String.prototype.toLowerCase\<close> does), when
  the detected and the required class names are made of ASCII characters, changing the
  case of any of their letters changes neither the computed region statuses nor the page
  that \<open>updateBodyVisualization\<close> renders. For required \<open>Helmet, Gloves\<close> and detected
  \<open>helmet\<close> the head is \<open>REQUIRED_AND_DETECTED\<close>, both hand regions are
  \<open>REQUIRED_AND_MISSING\<close> and every other region is \<open>NOT_REQUIRED\<close>.
\<close>

theorem computeRegionStatuses_ascii_case_insensitive:
  assumes "foldsAscii (toLowerCase w)"
    and "list_all isAscii d" and "list_all isAscii r"
    and "list_all2 caseVariant d d'" and "list_all2 caseVariant r r'"
  shows "computeRegionStatuses (toLowerCase w) d' r' = computeRegionStatuses (toLowerCase w) d r
     \<and> doc (updateBodyVisualization d' r' w) = doc (updateBodyVisualization d r w)
     \<and> computeRegionStatuses (toLowerCase w) [str ''helmet''] [str ''Helmet'', str ''Gloves''] =
         [(''head'', REQUIRED_AND_DETECTED), (''face'', NOT_REQUIRED), (''eyes'', NOT_REQUIRED),
          (''mouth'', NOT_REQUIRED), (''ears'', NOT_REQUIRED), (''chest'', NOT_REQUIRED),
          (''hands-left'', REQUIRED_AND_MISSING), (''hands-right'', REQUIRED_AND_MISSING),
          (''feet'', NOT_REQUIRED)]"
proof -
  have ld: "map (toLowerCase w) d' = map (toLowerCase w) d"
    using assms(4,1,2) by (rule foldsAscii_caseVariants)
  have lr: "map (toLowerCase w) r' = map (toLowerCase w) r"
    using assms(5,1,3) by (rule foldsAscii_caseVariants)
  have st: "partStatus (toLowerCase w) d' r' cs = partStatus (toLowerCase w) d r cs" for cs
    using ld lr by (rule partStatus_lower)
  have statuses: "computeRegionStatuses (toLowerCase w) d' r'
      = computeRegionStatuses (toLowerCase w) d r"
    by (simp add: computeRegionStatuses_def st)
  have page: "doc (updateBodyVisualization d' r' w) = doc (updateBodyVisualization d r w)"
  proof (cases "svgLoaded w")
    case True
    show ?thesis
    proof
      fix p
      show "doc (updateBodyVisualization d' r' w) p = doc (updateBodyVisualization d r w) p"
        by (simp add: updateBodyVisualization_doc [OF True] st split: option.splits)
    qed
  next
    case False
    then show ?thesis by (simp add: updateBodyVisualization_def)
  qed
  have a1: "list_all isAscii [str ''helmet'']" by code_simp
  have a2: "list_all isAscii [str ''Helmet'', str ''Gloves'']" by code_simp
  have ex: "computeRegionStatuses (map asciiLowerUnit) [str ''helmet'']
         [str ''Helmet'', str ''Gloves''] =
         [(''head'', REQUIRED_AND_DETECTED), (''face'', NOT_REQUIRED), (''eyes'', NOT_REQUIRED),
          (''mouth'', NOT_REQUIRED), (''ears'', NOT_REQUIRED), (''chest'', NOT_REQUIRED),
          (''hands-left'', REQUIRED_AND_MISSING), (''hands-right'', REQUIRED_AND_MISSING),
          (''feet'', NOT_REQUIRED)]"
    by code_simp
  have example: "computeRegionStatuses (toLowerCase w) [str ''helmet'']
         [str ''Helmet'', str ''Gloves''] =
         [(''head'', REQUIRED_AND_DETECTED), (''face'', NOT_REQUIRED), (''eyes'', NOT_REQUIRED),
          (''mouth'', NOT_REQUIRED), (''ears'', NOT_REQUIRED), (''chest'', NOT_REQUIRED),
          (''hands-left'', REQUIRED_AND_MISSING), (''hands-right'', REQUIRED_AND_MISSING),
          (''feet'', NOT_REQUIRED)]"
    unfolding computeRegionStatuses_ascii [OF assms(1) a1 a2] by (rule ex)
  from statuses page example show ?thesis by blast
qed

text \<open>
  The theorem at two case variants of the example, on the sample page, whose engine
  follows the case tables of Unicode.
\<close>

theorem computeRegionStatuses_ascii_case_insensitive_witness:
  "foldsAscii (toLowerCase sampleWorld)
   \<and> list_all isAscii [str ''helmet'']
   \<and> list_all isAscii [str ''Helmet'', str ''Gloves'']
   \<and> list_all2 caseVariant [str ''helmet''] [str ''HeLMET'']
   \<and> list_all2 caseVariant [str ''Helmet'', str ''Gloves''] [str ''HELMET'', str ''gloves'']
   \<and> computeRegionStatuses (toLowerCase sampleWorld) [str ''HeLMET'']
         [str ''HELMET'', str ''gloves'']
       = computeRegionStatuses (toLowerCase sampleWorld) [str ''helmet'']
         [str ''Helmet'', str ''Gloves'']
   \<and> computeRegionStatuses (toLowerCase sampleWorld) [str ''HeLMET'']
         [str ''HELMET'', str ''gloves''] =
         [(''head'', REQUIRED_AND_DETECTED), (''face'', NOT_REQUIRED), (''eyes'', NOT_REQUIRED),
          (''mouth'', NOT_REQUIRED), (''ears'', NOT_REQUIRED), (''chest'', NOT_REQUIRED),
          (''hands-left'', REQUIRED_AND_MISSING), (''hands-right'', REQUIRED_AND_MISSING),
          (''feet'', NOT_REQUIRED)]"
proof -
  have e: "foldsAscii (toLowerCase sampleWorld)"
    unfolding toLowerCase_sampleWorld by (rule foldsAscii_latinLower)
  have a1: "list_all isAscii [str ''helmet'']" by code_simp
  have a2: "list_all isAscii [str ''Helmet'', str ''Gloves'']" by code_simp
  have a: "list_all2 caseVariant [str ''helmet''] [str ''HeLMET'']" by code_simp
  have b: "list_all2 caseVariant [str ''Helmet'', str ''Gloves'']
      [str ''HELMET'', str ''gloves'']"
    by code_simp
  from computeRegionStatuses_ascii_case_insensitive [OF e a1 a2 a b] e a1 a2 a b
  show ?thesis by simp
qed

text \<open>
  Claim C7 as stated fails for class names outside ASCII, where lower-casing does not
  undo a change of case. The required class name \<open>U+017F hoes\<close> (a long s followed by
  \<open>hoes\<close>) lower-cases to itself and leaves every region \<open>NOT_REQUIRED\<close>; its upper-case
  form is \<open>SHOES\<close>, which lower-cases to \<open>shoes\<close> and makes the feet
  \<open>REQUIRED_AND_MISSING\<close>. Both strings are case variants of the same class name and the
  computed region statuses differ.
\<close>

theorem long_s_case_sensitive_counterexample:
  "latinUpper (383 # str ''hoes'') = str ''SHOES''
   \<and> toLowerCase sampleWorld (383 # str ''hoes'') = 383 # str ''hoes''
   \<and> toLowerCase sampleWorld (str ''SHOES'') = str ''shoes''
   \<and> computeRegionStatuses (toLowerCase sampleWorld) [] [383 # str ''hoes''] =
        [(''head'', NOT_REQUIRED), (''face'', NOT_REQUIRED), (''eyes'', NOT_REQUIRED),
         (''mouth'', NOT_REQUIRED), (''ears'', NOT_REQUIRED), (''chest'', NOT_REQUIRED),
         (''hands-left'', NOT_REQUIRED), (''hands-right'', NOT_REQUIRED),
         (''feet'', NOT_REQUIRED)]
   \<and> computeRegionStatuses (toLowerCase sampleWorld) [] [latinUpper (383 # str ''hoes'')] =
        [(''head'', NOT_REQUIRED), (''face'', NOT_REQUIRED), (''eyes'', NOT_REQUIRED),
         (''mouth'', NOT_REQUIRED), (''ears'', NOT_REQUIRED), (''chest'', NOT_REQUIRED),
         (''hands-left'', NOT_REQUIRED), (''hands-right'', NOT_REQUIRED),
         (''feet'', REQUIRED_AND_MISSING)]
   \<and> computeRegionStatuses (toLowerCase sampleWorld) [] [latinUpper (383 # str ''hoes'')]
       \<noteq> computeRegionStatuses (toLowerCase sampleWorld) [] [383 # str ''hoes'']"
proof -
  have u: "latinUpper (383 # str ''hoes'') = str ''SHOES''" by code_simp
  have l1: "latinLower (383 # str ''hoes'') = 383 # str ''hoes''" by code_simp
  have l2: "latinLower (str ''SHOES'') = str ''shoes''" by code_simp
  have s1: "computeRegionStatuses latinLower [] [383 # str ''hoes''] =
        [(''head'', NOT_REQUIRED), (''face'', NOT_REQUIRED), (''eyes'', NOT_REQUIRED),
         (''mouth'', NOT_REQUIRED), (''ears'', NOT_REQUIRED), (''chest'', NOT_REQUIRED),
         (''hands-left'', NOT_REQUIRED), (''hands-right'', NOT_REQUIRED),
         (''feet'', NOT_REQUIRED)]"
    by code_simp
  have s2: "computeRegionStatuses latinLower [] [str ''SHOES''] =
        [(''head'', NOT_REQUIRED), (''face'', NOT_REQUIRED), (''eyes'', NOT_REQUIRED),
         (''mouth'', NOT_REQUIRED), (''ears'', NOT_REQUIRED), (''chest'', NOT_REQUIRED),
         (''hands-left'', NOT_REQUIRED), (''hands-right'', NOT_REQUIRED),
         (''feet'', REQUIRED_AND_MISSING)]"
    by code_simp
  show ?thesis
    unfolding toLowerCase_sampleWorld u l1 l2 s1 s2 by simp
qed

text \<open>
  Claim C10. For every snapshot of detected and required classes held by the module, the
  summary is computed from that snapshot and its counts partition the required list.
  The total count is the number of required classes; \<open>missingList\<close> holds the lower-cased
  required names that are not among the lower-cased detected names, and the missing
  count is its length; the detected count is the number of lower-cased required names
  that are among the lower-cased detected names. The detected count plus the missing
  count is the total count, and \<open>allDetected\<close> is true exactly when the missing count is
  zero, which is exactly when \<open>missingList\<close> is empty.
\<close>

theorem getStatusSummary_partition:
  "total (getStatusSummary w) = length (currentRequired w)
   \<and> missingList (getStatusSummary w)
       = filter (\<lambda>cls. cls \<notin> set (map (toLowerCase w) (currentDetected w)))
           (map (toLowerCase w) (currentRequired w))
   \<and> missing (getStatusSummary w) = length (missingList (getStatusSummary w))
   \<and> detected (getStatusSummary w)
       = length (filter (\<lambda>cls. cls \<in> set (map (toLowerCase w) (currentDetected w)))
           (map (toLowerCase w) (currentRequired w)))
   \<and> detected (getStatusSummary w) + missing (getStatusSummary w) = total (getStatusSummary w)
   \<and> allDetected (getStatusSummary w) = (missing (getStatusSummary w) = 0)
   \<and> allDetected (getStatusSummary w) = (missingList (getStatusSummary w) = [])"
proof -
  let ?dl = "map (toLowerCase w) (currentDetected w)"
  let ?rl = "map (toLowerCase w) (currentRequired w)"
  have split: "length (filter (\<lambda>cls. cls \<in> set ?dl) ?rl)
      + length (filter (\<lambda>cls. cls \<notin> set ?dl) ?rl) = length ?rl"
    by (rule sum_length_filter_compl)
  have tot: "total (getStatusSummary w) = length (currentRequired w)"
    unfolding getStatusSummary_def Let_def by (simp only: summary.simps length_map)
  have ml: "missingList (getStatusSummary w) = filter (\<lambda>cls. cls \<notin> set ?dl) ?rl"
    unfolding getStatusSummary_def Let_def by (simp only: summary.simps)
  have mc: "missing (getStatusSummary w) = length (missingList (getStatusSummary w))"
    unfolding getStatusSummary_def Let_def by (simp only: summary.simps)
  have dc: "detected (getStatusSummary w) = length (filter (\<lambda>cls. cls \<in> set ?dl) ?rl)"
    unfolding getStatusSummary_def Let_def by (simp only: summary.simps)
  have counts: "detected (getStatusSummary w) + missing (getStatusSummary w)
      = total (getStatusSummary w)"
    unfolding getStatusSummary_def Let_def using split by (simp only: summary.simps)
  have flag: "allDetected (getStatusSummary w) = (missing (getStatusSummary w) = 0)"
    unfolding getStatusSummary_def Let_def by (simp only: summary.simps)
  have empty: "allDetected (getStatusSummary w) = (missingList (getStatusSummary w) = [])"
    unfolding getStatusSummary_def Let_def by (simp only: summary.simps length_0_conv)
  from tot ml mc dc counts flag empty show ?thesis by blast
qed

text \<open>
  The theorem at the snapshot with a helmet detected and a helmet and gloves required:
  two required classes, one detected, one missing, \<open>gloves\<close> listed and \<open>allDetected\<close>
  false.
\<close>

theorem getStatusSummary_partition_witness:
  "getStatusSummary (sampleWorld\<lparr>currentDetected := [str ''helmet''],
        currentRequired := [str ''Helmet'', str ''Gloves'']\<rparr>)
     = \<lparr>total = 2, detected = 1, missing = 1, missingList = [str ''gloves''],
        allDetected = False\<rparr>"
proof -
  let ?w = "sampleWorld\<lparr>currentDetected := [str ''helmet''],
        currentRequired := [str ''Helmet'', str ''Gloves'']\<rparr>"
  note T = getStatusSummary_partition [of ?w]
  have lw: "toLowerCase ?w = latinLower" by (simp add: sampleWorld_def)
  have cd: "currentDetected ?w = [str ''helmet'']" by simp
  have cr: "currentRequired ?w = [str ''Helmet'', str ''Gloves'']" by simp
  have f1: "filter (\<lambda>cls. cls \<notin> set (map latinLower [str ''helmet'']))
      (map latinLower [str ''Helmet'', str ''Gloves'']) = [str ''gloves'']"
    by code_simp
  have f2: "length (filter (\<lambda>cls. cls \<in> set (map latinLower [str ''helmet'']))
      (map latinLower [str ''Helmet'', str ''Gloves''])) = 1"
    by code_simp
  from T have t: "total (getStatusSummary ?w) = 2"
    unfolding cr by simp
  from T have m: "missingList (getStatusSummary ?w) = [str ''gloves'']"
    unfolding lw cd cr f1 by blast
  from T have mc: "missing (getStatusSummary ?w) = 1"
    unfolding m by simp
  from T have dc: "detected (getStatusSummary ?w) = 1"
    unfolding lw cd cr f2 by blast
  from T have ad: "allDetected (getStatusSummary ?w) = False"
    unfolding m by simp
  have "getStatusSummary ?w
     = \<lparr>total = total (getStatusSummary ?w), detected = detected (getStatusSummary ?w),
        missing = missing (getStatusSummary ?w),
        missingList = missingList (getStatusSummary ?w),
        allDetected = allDetected (getStatusSummary ?w)\<rparr>"
    by simp
  then show ?thesis unfolding t m mc dc ad .
qed

section \<open>Properties of the socket handler\<close>

lemma samplePage_system_status: "doc sampleWorld ''system-status'' = Some blankElement"
  by (simp add: sampleWorld_def samplePage_def)

text \<open>
  Claim C3, as the code has it. The client emits \<open>start_detection\<close> when the channel
  connects (after it has written the status indicator, so only on a page that carries
  \<open>#system-status\<close>) and when the page becomes visible; it emits \<open>stop_detection\<close>
  when the page is hidden, on \<open>pagehide\<close>, on \<open>beforeunload\<close> and on \<open>unload\<close>. When
  the channel disconnects it changes the status indicator and emits nothing.
\<close>

theorem lifecycle_emissions:
  "(doc w ''system-status'' \<noteq> None \<longrightarrow>
      emissions w (dispatch Connect w) = Inr [''start_detection'']
      \<and> emissions w (dispatch Disconnect w) = Inr [])
   \<and> (doc w ''system-status'' = None \<longrightarrow>
      emissions w (dispatch Connect w) = Inl TypeError
      \<and> emissions w (dispatch Disconnect w) = Inl TypeError)
   \<and> emissions w (dispatch (VisibilityChange False) w) = Inr [''start_detection'']
   \<and> emissions w (dispatch (VisibilityChange True) w) = Inr [''stop_detection'']
   \<and> emissions w (dispatch PageHide w) = Inr [''stop_detection'']
   \<and> emissions w (dispatch BeforeUnload w) = Inr [''stop_detection'']
   \<and> emissions w (dispatch Unload w) = Inr [''stop_detection'']"
proof -
  have present: "emissions w (dispatch Connect w) = Inr [''start_detection'']
      \<and> emissions w (dispatch Disconnect w) = Inr []"
    if "doc w ''system-status'' \<noteq> None"
  proof -
    from that obtain e where e: "doc w ''system-status'' = Some e" by blast
    show ?thesis
      by (simp add: on_connect_def on_disconnect_def bindE_def derefUpdate_def
          getElementById_def doc_updateElement e emissions_def socket_emit_def)
  qed
  have absent: "emissions w (dispatch Connect w) = Inl TypeError
      \<and> emissions w (dispatch Disconnect w) = Inl TypeError"
    if "doc w ''system-status'' = None"
    using that
    by (simp add: on_connect_def on_disconnect_def bindE_def derefUpdate_def
        getElementById_def emissions_def)
  have page: "emissions w (dispatch (VisibilityChange False) w) = Inr [''start_detection'']
   \<and> emissions w (dispatch (VisibilityChange True) w) = Inr [''stop_detection'']
   \<and> emissions w (dispatch PageHide w) = Inr [''stop_detection'']
   \<and> emissions w (dispatch BeforeUnload w) = Inr [''stop_detection'']
   \<and> emissions w (dispatch Unload w) = Inr [''stop_detection'']"
    by (simp add: on_visibilitychange_def on_pagehide_def on_beforeunload_def on_unload_def
        emissions_def socket_emit_def)
  from present absent page show ?thesis by blast
qed

text \<open>The theorem on the sample page, and on a page without the status indicator.\<close>

theorem lifecycle_emissions_witness:
  "doc sampleWorld ''system-status'' \<noteq> None
   \<and> emissions sampleWorld (dispatch Connect sampleWorld) = Inr [''start_detection'']
   \<and> doc (sampleWorld\<lparr>doc := Map.empty\<rparr>) ''system-status'' = None
   \<and> emissions (sampleWorld\<lparr>doc := Map.empty\<rparr>)
        (dispatch Connect (sampleWorld\<lparr>doc := Map.empty\<rparr>)) = Inl TypeError"
proof -
  have p: "doc sampleWorld ''system-status'' \<noteq> None"
    by (simp add: samplePage_system_status)
  have a: "doc (sampleWorld\<lparr>doc := Map.empty\<rparr>) ''system-status'' = None" by simp
  from lifecycle_emissions [of sampleWorld] p
  have c1: "emissions sampleWorld (dispatch Connect sampleWorld) = Inr [''start_detection'']"
    by blast
  from lifecycle_emissions [of "sampleWorld\<lparr>doc := Map.empty\<rparr>"] a
  have c2: "emissions (sampleWorld\<lparr>doc := Map.empty\<rparr>)
        (dispatch Connect (sampleWorld\<lparr>doc := Map.empty\<rparr>)) = Inl TypeError"
    by blast
  from p a c1 c2 show ?thesis by blast
qed

text \<open>
  Claim C3 as stated fails at the disconnect signal: on the sample page the handler
  returns normally and has emitted no request, so no \<open>stop_detection\<close>.
\<close>

theorem disconnect_emits_nothing_counterexample:
  "emissions sampleWorld (dispatch Disconnect sampleWorld) = Inr []
   \<and> emissions sampleWorld (dispatch Disconnect sampleWorld) \<noteq> Inr [''stop_detection'']"
  by (simp add: on_disconnect_def bindE_def derefUpdate_def getElementById_def
      doc_updateElement samplePage_system_status emissions_def)

text \<open>
  Claim C8. On a page that carries the status panel, every status event with the state
  \<open>ACCESS_DENIED\<close> is handled without an error, whatever fields it lacks, and leaves
  the denied panel: the message slot shows the message of the event, or the default text
  \<open>Access requirements not met\<close> when the message is absent (or empty); the person-name
  slot shows the person name and is displayed when the event has one, and is hidden when
  the name is absent (the handler tests the field for truth, so an empty name counts as
  absent); the progress indicator is hidden.
\<close>

theorem access_denied_display:
  assumes "statusPanelPresent w" and "state data = ''ACCESS_DENIED''"
  shows "\<exists>w'. on_access_status_change data w = Inr w'
     \<and> currentState w' = ''ACCESS_DENIED''
     \<and> map_option textContent (doc w' ''status-text'') = Some ''ACCESS DENIED''
     \<and> map_option textContent (doc w' ''status-message'')
         = Some (case message data of
                   None \<Rightarrow> ''Access requirements not met''
                 | Some m \<Rightarrow> if m = [] then ''Access requirements not met'' else m)
     \<and> (case person_name data of
           None \<Rightarrow> map_option display (doc w' ''status-user'') = Some ''none''
         | Some n \<Rightarrow>
             if n = [] then map_option display (doc w' ''status-user'') = Some ''none''
             else map_option display (doc w' ''status-user'') = Some ''block''
                  \<and> map_option textContent (doc w' ''status-user'') = Some n)
     \<and> map_option display (doc w' ''door-progress'') = Some ''none''"
proof -
  from assms(1) obtain e1 e2 e3 e4 e5 e6 where
    e: "doc w ''access-status'' = Some e1" "doc w ''status-icon'' = Some e2"
       "doc w ''status-text'' = Some e3" "doc w ''status-message'' = Some e4"
       "doc w ''status-user'' = Some e5" "doc w ''door-progress'' = Some e6"
    by (auto simp: statusPanelPresent_def)
  show ?thesis
    using assms(2)
    by (cases "person_name data"; cases "message data")
       (simp_all add: on_access_status_change_def bindE_def derefUpdate_def
        getElementById_def doc_updateElement e playAnimation_def playDeniedAnimation_def
        jsOr_def jsTruthy_def jsToString_def)
qed

text \<open>
  The theorem on the sample page, at an event that carries nothing but its state and at
  an event with a person name.
\<close>

theorem access_denied_display_witness:
  "statusPanelPresent sampleWorld
   \<and> (\<exists>w'. on_access_status_change
               \<lparr>state = ''ACCESS_DENIED'', person_name = None, message = None,
                duration = None\<rparr> sampleWorld = Inr w'
          \<and> map_option textContent (doc w' ''status-message'')
              = Some ''Access requirements not met''
          \<and> map_option display (doc w' ''status-user'') = Some ''none''
          \<and> map_option display (doc w' ''door-progress'') = Some ''none'')
   \<and> (\<exists>w'. on_access_status_change
               \<lparr>state = ''ACCESS_DENIED'', person_name = Some ''Alex'',
                message = Some ''Missing: Helmet'', duration = None\<rparr> sampleWorld = Inr w'
          \<and> map_option textContent (doc w' ''status-message'') = Some ''Missing: Helmet''
          \<and> map_option display (doc w' ''status-user'') = Some ''block''
          \<and> map_option textContent (doc w' ''status-user'') = Some ''Alex'')"
proof -
  have p: "statusPanelPresent sampleWorld"
    by (simp add: statusPanelPresent_def sampleWorld_def samplePage_def)
  from access_denied_display [OF p,
      of "\<lparr>state = ''ACCESS_DENIED'', person_name = None, message = None, duration = None\<rparr>"]
  have a: "\<exists>w'. on_access_status_change
               \<lparr>state = ''ACCESS_DENIED'', person_name = None, message = None,
                duration = None\<rparr> sampleWorld = Inr w'
          \<and> map_option textContent (doc w' ''status-message'')
              = Some ''Access requirements not met''
          \<and> map_option display (doc w' ''status-user'') = Some ''none''
          \<and> map_option display (doc w' ''door-progress'') = Some ''none''"
    by simp blast
  from access_denied_display [OF p,
      of "\<lparr>state = ''ACCESS_DENIED'', person_name = Some ''Alex'',
           message = Some ''Missing: Helmet'', duration = None\<rparr>"]
  have b: "\<exists>w'. on_access_status_change
               \<lparr>state = ''ACCESS_DENIED'', person_name = Some ''Alex'',
                message = Some ''Missing: Helmet'', duration = None\<rparr> sampleWorld = Inr w'
          \<and> map_option textContent (doc w' ''status-message'') = Some ''Missing: Helmet''
          \<and> map_option display (doc w' ''status-user'') = Some ''block''
          \<and> map_option textContent (doc w' ''status-user'') = Some ''Alex''"
    by simp blast
  from p a b show ?thesis by blast
qed

section \<open>Properties of the animation sequences\<close>

text \<open>
  Claim C1, as the code has it. Starting a global sequence cancels nothing. The granted
  and the denied sequence always start, and set the flag. Whenever one of them has
  started, or the status handler has handled an event (so also on entering
  \<open>ACCESS_GRANTED\<close> or \<open>ACCESS_DENIED\<close>), timers have only been added: every timer that
  was pending, in particular every step of a sequence started earlier, is still pending
  afterwards; and when the clock is then advanced to a deadline (with a bound on the
  firings that covers the pending work, which always suffices), every such timer due by
  the deadline has fired, at its due time. Granted and denied effects can therefore
  overlap.
\<close>

theorem sequence_start_cancels_nothing:
  assumes "wellTimed w"
  shows "(\<exists>w1. playAccessGranted personName w = Inr w1 \<and> isAnimating w1)
      \<and> (\<exists>w1. playAccessDenied reason w = Inr w1 \<and> isAnimating w1)
      \<and> (\<forall>start w1.
            (start = playAccessGranted personName \<or> start = playAccessDenied reason
               \<or> start = on_access_status_change data)
            \<and> start w = Inr w1 \<longrightarrow>
            wellTimed w1
            \<and> (\<forall>t \<in> set (timers w). t \<in> set (timers w1))
            \<and> (\<forall>fuel deadline. pendingWork (timers w1) \<le> fuel \<longrightarrow>
                 (\<exists>w2. advance fuel deadline w1 = Some (Inr w2)
                    \<and> (\<forall>t \<in> set (timers w). fst t \<le> deadline \<longrightarrow> t \<in> set (fired w2)))))"
proof -
  have g: "\<exists>w1. playAccessGranted personName w = Inr w1 \<and> isAnimating w1"
    by (simp add: playAccessGranted_result)
  have d: "\<exists>w1. playAccessDenied reason w = Inr w1 \<and> isAnimating w1"
    by (simp add: playAccessDenied_result)
  have keep: "wellTimed w1
            \<and> (\<forall>t \<in> set (timers w). t \<in> set (timers w1))
            \<and> (\<forall>fuel deadline. pendingWork (timers w1) \<le> fuel \<longrightarrow>
                 (\<exists>w2. advance fuel deadline w1 = Some (Inr w2)
                    \<and> (\<forall>t \<in> set (timers w). fst t \<le> deadline \<longrightarrow> t \<in> set (fired w2))))"
    if s: "start = playAccessGranted personName \<or> start = playAccessDenied reason
               \<or> start = on_access_status_change data"
      and r: "start w = Inr w1" for start w1
  proof -
    from s have "extending start"
      using extending_playAccessGranted extending_playAccessDenied
        extending_on_access_status_change by blast
    with r have "extends w w1" by (simp add: extending_def)
    with assms show ?thesis by (rule extends_run)
  qed
  from g d keep show ?thesis by blast
qed

text \<open>
  The theorem at the sample page: the granted sequence was started at 0; at 100 the
  denied sequence is started, or else a denying status event is handled; either way the
  particle burst of the granted sequence, pending at 100, has fired when the clock
  reaches 700.
\<close>

theorem sequence_start_cancels_nothing_witness:
  "wellTimed afterGranted
   \<and> (600, G_createSuccessParticles) \<in> set (timers afterGranted)
   \<and> (\<exists>w1. playAccessDenied None afterGranted = Inr w1
         \<and> (600, G_createSuccessParticles) \<in> set (timers w1)
         \<and> pendingWork (timers w1) \<le> 100
         \<and> (\<exists>w2. advance 100 700 w1 = Some (Inr w2)
               \<and> (600, G_createSuccessParticles) \<in> set (fired w2)))
   \<and> (\<exists>w1. on_access_status_change deniedEvent afterGranted = Inr w1
         \<and> (600, G_createSuccessParticles) \<in> set (timers w1)
         \<and> pendingWork (timers w1) \<le> 100
         \<and> (\<exists>w2. advance 100 700 w1 = Some (Inr w2)
               \<and> (600, G_createSuccessParticles) \<in> set (fired w2)))"
proof -
  note T = sequence_start_cancels_nothing
    [OF afterGranted_facts(1), of "Some ''Alex''" None deniedEvent]
  have use: "\<exists>w2. advance 100 700 w1 = Some (Inr w2)
               \<and> (600, G_createSuccessParticles) \<in> set (timers w1)
               \<and> (600, G_createSuccessParticles) \<in> set (fired w2)"
    if s: "start = playAccessGranted (Some ''Alex'') \<or> start = playAccessDenied None
             \<or> start = on_access_status_change deniedEvent"
      and r: "start afterGranted = Inr w1" and p: "pendingWork (timers w1) \<le> 100"
    for start w1
  proof -
    from T s r have k: "\<forall>t \<in> set (timers afterGranted). t \<in> set (timers w1)"
      and a: "\<forall>fuel deadline. pendingWork (timers w1) \<le> fuel \<longrightarrow>
                 (\<exists>w2. advance fuel deadline w1 = Some (Inr w2)
                    \<and> (\<forall>t \<in> set (timers afterGranted). fst t \<le> deadline \<longrightarrow> t \<in> set (fired w2)))"
      by blast+
    from a p obtain w2 where w2: "advance 100 700 w1 = Some (Inr w2)"
        "\<forall>t \<in> set (timers afterGranted). fst t \<le> 700 \<longrightarrow> t \<in> set (fired w2)"
      by blast
    from w2(2) afterGranted_facts(2) have "(600, G_createSuccessParticles) \<in> set (fired w2)"
      by fastforce
    with w2(1) k afterGranted_facts(2) show ?thesis by blast
  qed
  from T obtain wd where wd: "playAccessDenied None afterGranted = Inr wd" by blast
  from playAccessDenied_work [OF wd] afterGranted_facts(3)
  have pd: "pendingWork (timers wd) \<le> 100" by simp
  from deniedEvent_afterGranted obtain wh where
    wh: "on_access_status_change deniedEvent afterGranted = Inr wh"
      "pendingWork (timers wh) \<le> 100"
    by (auto split: sum.splits)
  have ud: "\<exists>w2. advance 100 700 wd = Some (Inr w2)
               \<and> (600, G_createSuccessParticles) \<in> set (timers wd)
               \<and> (600, G_createSuccessParticles) \<in> set (fired w2)"
    by (rule use [of "playAccessDenied None"]) (simp_all add: wd pd)
  have uh: "\<exists>w2. advance 100 700 wh = Some (Inr w2)
               \<and> (600, G_createSuccessParticles) \<in> set (timers wh)
               \<and> (600, G_createSuccessParticles) \<in> set (fired w2)"
    by (rule use [of "on_access_status_change deniedEvent"]) (simp_all add: wh)
  from ud uh wd pd wh afterGranted_facts(1,2)
  show ?thesis by blast
qed

text \<open>
  Claim C1 as stated fails. With the granted sequence started at 0 and the denied
  sequence at 100, the particle burst of the granted sequence fires at 600 and spawns
  particles, and at 700 the slide-in of the welcome message (granted) and the attention
  marker of the denial reason (denied) are on the page together. With the status events
  themselves, \<open>ACCESS_GRANTED\<close> at 0 and \<open>ACCESS_DENIED\<close> at 100, the status panel at 200
  carries the ripple and the twenty particles of the granted state together with the
  shake of the denied state.
\<close>

theorem granted_survives_denied_counterexample:
  "(case session 20
          [(0, playAccessGranted (Some ''Alex'')), (100, playAccessDenied None), (700, Inr)]
          sampleWorld of
      Some (Inr w) \<Rightarrow>
        (600, G_createSuccessParticles) \<in> set (fired w)
        \<and> (650, SuccessParticleSpawn) \<in> set (fired w)
        \<and> length (particles w) = 3
        \<and> map_option classList (doc w ''status-message'') = Some [''attention-animation'']
        \<and> map_option classList (doc w ''status-user'') = Some [''slide-in-up'']
    | _ \<Rightarrow> False)
   \<and> (case session 20
          [(0, on_access_status_change
                 \<lparr>state = ''ACCESS_GRANTED'', person_name = Some ''Alex'', message = None,
                  duration = None\<rparr>),
           (100, on_access_status_change deniedEvent), (200, Inr)]
          sampleWorld of
      Some (Inr w) \<Rightarrow>
        map_option classList (doc w ''access-status'')
          = Some [''ripple-effect'', ''denied'', ''shake-animation'']
        \<and> length (particles w) = 20
        \<and> (1000, RippleEnd) \<in> set (timers w)
    | _ \<Rightarrow> False)"
  by code_simp

text \<open>
  Claim C4, as the code has it. The granted sequence schedules the success marker for the
  seven regions of its own list, head, face, eyes, chest, hands-left, hands-right and
  feet, at 0, 100, ..., 600 ms after its start. When such a step fires and the region is
  on the page, the region gets the class \<open>scale-in\<close> and its removal is scheduled 500 ms
  later. The list is part of the region set of the coverage mapping, which has two more
  regions, mouth and ears; these get no marker.
\<close>

theorem granted_success_markers:
  "(\<exists>w1. playAccessGranted personName w = Inr w1
      \<and> timers w1 = timers w @
          [(now w, BodyPartScaleIn ''head''),
           (now w + 100, BodyPartScaleIn ''face''),
           (now w + 200, BodyPartScaleIn ''eyes''),
           (now w + 300, BodyPartScaleIn ''chest''),
           (now w + 400, BodyPartScaleIn ''hands-left''),
           (now w + 500, BodyPartScaleIn ''hands-right''),
           (now w + 600, BodyPartScaleIn ''feet''),
           (now w + 200, G_transitionStatusSection),
           (now w + 400, G_showWelcomeMessage personName),
           (now w + 600, G_createSuccessParticles),
           (now w + 800, G_animateDoorOpening),
           (now w + 4000, G_done)])
   \<and> (doc w partId \<noteq> None \<longrightarrow>
        (\<exists>w2 e. exec (BodyPartScaleIn partId) w = Inr w2
           \<and> doc w2 partId = Some e \<and> ''scale-in'' \<in> set (classList e)
           \<and> timers w2 = timers w @ [(now w + 500, BodyPartScaleEnd partId)]))
   \<and> (\<exists>w3. exec (BodyPartScaleEnd partId) w = Inr w3
         \<and> (\<forall>e. doc w3 partId = Some e \<longrightarrow> ''scale-in'' \<notin> set (classList e)))
   \<and> set bodyParts \<subseteq> set (map fst BODY_PART_MAPPING)
   \<and> set (map fst BODY_PART_MAPPING) - set bodyParts = {''mouth'', ''ears''}"
proof -
  have start: "\<exists>w1. playAccessGranted personName w = Inr w1
      \<and> timers w1 = timers w @
          [(now w, BodyPartScaleIn ''head''),
           (now w + 100, BodyPartScaleIn ''face''),
           (now w + 200, BodyPartScaleIn ''eyes''),
           (now w + 300, BodyPartScaleIn ''chest''),
           (now w + 400, BodyPartScaleIn ''hands-left''),
           (now w + 500, BodyPartScaleIn ''hands-right''),
           (now w + 600, BodyPartScaleIn ''feet''),
           (now w + 200, G_transitionStatusSection),
           (now w + 400, G_showWelcomeMessage personName),
           (now w + 600, G_createSuccessParticles),
           (now w + 800, G_animateDoorOpening),
           (now w + 4000, G_done)]"
    by (simp add: playAccessGranted_result)
  have mark: "doc w partId \<noteq> None \<longrightarrow>
        (\<exists>w2 e. exec (BodyPartScaleIn partId) w = Inr w2
           \<and> doc w2 partId = Some e \<and> ''scale-in'' \<in> set (classList e)
           \<and> timers w2 = timers w @ [(now w + 500, BodyPartScaleEnd partId)])"
    by (auto simp: getElementById_def setTimeout_def doc_updateElement classList_add_def)
  have unmark: "\<exists>w3. exec (BodyPartScaleEnd partId) w = Inr w3
         \<and> (\<forall>e. doc w3 partId = Some e \<longrightarrow> ''scale-in'' \<notin> set (classList e))"
    by (auto simp: doc_updateElement classList_remove_def)
  have sub: "set bodyParts \<subseteq> set (map fst BODY_PART_MAPPING)"
    by (simp add: bodyParts_def BODY_PART_MAPPING_def)
  have rest: "set (map fst BODY_PART_MAPPING) - set bodyParts = {''mouth'', ''ears''}"
    by (auto simp: bodyParts_def BODY_PART_MAPPING_def)
  from start mark unmark sub rest show ?thesis by blast
qed

text \<open>The theorem at the feet region of the sample page.\<close>

theorem granted_success_markers_witness:
  "doc sampleWorld ''feet'' \<noteq> None
   \<and> (\<exists>w2 e. exec (BodyPartScaleIn ''feet'') sampleWorld = Inr w2
         \<and> doc w2 ''feet'' = Some e \<and> ''scale-in'' \<in> set (classList e)
         \<and> timers w2 = [(500, BodyPartScaleEnd ''feet'')]
         \<and> (\<exists>w3. exec (BodyPartScaleEnd ''feet'') w2 = Inr w3
               \<and> map_option classList (doc w3 ''feet'') = Some []))"
proof -
  have pres: "doc sampleWorld ''feet'' \<noteq> None"
    by (simp add: sampleWorld_def samplePage_def BODY_PART_MAPPING_def)
  have init: "timers sampleWorld = []" "now sampleWorld = 0"
    by (simp_all add: sampleWorld_def)
  have cl: "map_option classList (doc sampleWorld ''feet'') = Some []"
    by (simp add: sampleWorld_def samplePage_def BODY_PART_MAPPING_def bodyPartElement_def
        blankElement_def)
  from granted_success_markers [of None sampleWorld "''feet''"] pres
  obtain w2 e where w2: "exec (BodyPartScaleIn ''feet'') sampleWorld = Inr w2"
      "doc w2 ''feet'' = Some e" "''scale-in'' \<in> set (classList e)"
      "timers w2 = [(500, BodyPartScaleEnd ''feet'')]"
    unfolding init by auto
  have "exec (BodyPartScaleEnd ''feet'') w2
      = Inr (updateElement ''feet'' (classList_remove ''scale-in'') w2)" by simp
  moreover have "map_option classList
      (doc (updateElement ''feet'' (classList_remove ''scale-in'') w2) ''feet'') = Some []"
    using w2(1) cl pres
    by (auto simp: getElementById_def doc_updateElement classList_remove_def classList_add_def
        setTimeout_def split: option.splits)
  ultimately show ?thesis using pres w2 by auto
qed

text \<open>
  Claim C4 as stated fails at the region \<open>mouth\<close> of the region set: 650 ms into the
  granted sequence on the sample page all marker steps have fired, the feet carry the
  marker, the mouth does not, and no step for the mouth has fired or is pending.
\<close>

theorem mouth_never_marked_counterexample:
  "''mouth'' \<in> set (map fst BODY_PART_MAPPING)
   \<and> (case session 20 [(0, playAccessGranted (Some ''Alex'')), (650, Inr)] sampleWorld of
         Some (Inr w) \<Rightarrow>
           map_option classList (doc w ''feet'') = Some [''scale-in'']
           \<and> map_option classList (doc w ''mouth'') = Some []
           \<and> list_all (\<lambda>t. snd t \<noteq> BodyPartScaleIn ''mouth'') (fired w @ timers w)
       | _ \<Rightarrow> False)"
  by code_simp

text \<open>
  Claim C5, as the code has it. The granted sequence schedules the particle burst at
  600 ms, the opening of the progress bar at 800 ms and the end of the sequence at
  4000 ms. The burst (when the status panel is on the page) schedules 30 particles 50 ms
  apart; each particle has a size in [5, 15) px, a colour of the palette of four and a
  horizontal position in [0, 100) percent, and is removed 1500 ms after it appeared. The
  step at 800 ms (when the progress elements are on the page) resets the bar to 0% and
  schedules, 50 ms later, a linear fill whose duration is the constant 3000 ms: the
  sequence takes no duration from its caller. The step at 4000 ms clears the flag.
  The random numbers are exact reals in [0, 1).
\<close>

theorem granted_schedule:
  "(\<exists>w1. playAccessGranted personName w = Inr w1 \<and> isAnimating w1
      \<and> (now w + 600, G_createSuccessParticles) \<in> set (timers w1)
      \<and> (now w + 800, G_animateDoorOpening) \<in> set (timers w1)
      \<and> (now w + 4000, G_done) \<in> set (timers w1))
   \<and> (doc w ''access-status'' \<noteq> None \<longrightarrow>
        (\<exists>w2. exec G_createSuccessParticles w = Inr w2
           \<and> timers w2 = timers w @ map (\<lambda>i. (now w + int i * 50, SuccessParticleSpawn)) [0..<30]))
   \<and> ((\<forall>k. 0 \<le> mathRandom w k \<and> mathRandom w k < 1) \<longrightarrow>
        (\<exists>w3 p sz c. exec SuccessParticleSpawn w = Inr w3
           \<and> particles w3 = particles w @ [p]
           \<and> size_px p = Some sz \<and> 5 \<le> sz \<and> sz < 15
           \<and> background p = Some c \<and> c \<in> set colors
           \<and> 0 \<le> left_pct p \<and> left_pct p < 100
           \<and> timers w3 = timers w @ [(now w + 1500, SuccessParticleRemove (pid p))]
           \<and> (\<exists>w4. exec (SuccessParticleRemove (pid p)) w3 = Inr w4
                 \<and> p \<notin> set (particles w4))))
   \<and> length colors = 4
   \<and> (doc w ''door-progress'' \<noteq> None \<and> doc w ''door-progress-bar'' \<noteq> None \<longrightarrow>
        (\<exists>w5. exec G_animateDoorOpening w = Inr w5
           \<and> timers w5 = timers w @ [(now w + 50, DoorOpeningFill 3000)]
           \<and> map_option width (doc w5 ''door-progress-bar'') = Some ''0%''
           \<and> map_option transition (doc w5 ''door-progress-bar'') = Some T_none
           \<and> map_option display (doc w5 ''door-progress'') = Some ''block''))
   \<and> (doc w ''door-progress-bar'' \<noteq> None \<longrightarrow>
        (\<exists>w6. exec (DoorOpeningFill 3000) w = Inr w6
           \<and> map_option width (doc w6 ''door-progress-bar'') = Some ''100%''
           \<and> map_option transition (doc w6 ''door-progress-bar'') = Some (T_width_linear 3000)))
   \<and> exec G_done w = Inr (w\<lparr>isAnimating := False\<rparr>)"
proof -
  have start: "\<exists>w1. playAccessGranted personName w = Inr w1 \<and> isAnimating w1
      \<and> (now w + 600, G_createSuccessParticles) \<in> set (timers w1)
      \<and> (now w + 800, G_animateDoorOpening) \<in> set (timers w1)
      \<and> (now w + 4000, G_done) \<in> set (timers w1)"
    by (simp add: playAccessGranted_result)
  have burst: "doc w ''access-status'' \<noteq> None \<longrightarrow>
        (\<exists>w2. exec G_createSuccessParticles w = Inr w2
           \<and> timers w2 = timers w @ map (\<lambda>i. (now w + int i * 50, SuccessParticleSpawn)) [0..<30])"
    by (auto simp: createSuccessParticles_def getElementById_def fold_setTimeout
        particleCount_def)
  have particle: "\<exists>w3 p sz c. exec SuccessParticleSpawn w = Inr w3
           \<and> particles w3 = particles w @ [p]
           \<and> size_px p = Some sz \<and> 5 \<le> sz \<and> sz < 15
           \<and> background p = Some c \<and> c \<in> set colors
           \<and> 0 \<le> left_pct p \<and> left_pct p < 100
           \<and> timers w3 = timers w @ [(now w + 1500, SuccessParticleRemove (pid p))]
           \<and> (\<exists>w4. exec (SuccessParticleRemove (pid p)) w3 = Inr w4
                 \<and> p \<notin> set (particles w4))"
    if rnd: "\<forall>k. 0 \<le> mathRandom w k \<and> mathRandom w k < 1"
  proof -
    let ?r2 = "mathRandom w (drawn w + 1)"
    from rnd have r2: "0 \<le> ?r2" "?r2 < 1" by auto
    then have "0 \<le> ?r2 * 4" "?r2 * 4 < 4" by auto
    then have k: "0 \<le> \<lfloor>?r2 * 4\<rfloor>" "\<lfloor>?r2 * 4\<rfloor> < 4" by (auto simp: floor_less_iff)
    then have "nat \<lfloor>?r2 * 4\<rfloor> < 4" by linarith
    moreover have "length colors = 4" by (simp add: colors_def)
    ultimately have "nat \<lfloor>?r2 * 4\<rfloor> < length colors" by simp
    then have c: "colors ! nat \<lfloor>?r2 * 4\<rfloor> \<in> set colors" by (rule nth_mem)
    from rnd have r1: "0 \<le> mathRandom w (drawn w)" "mathRandom w (drawn w) < 1" by auto
    from rnd have r3: "0 \<le> mathRandom w (drawn w + 2)" "mathRandom w (drawn w + 2) < 1"
      by auto
    have len: "length colors = 4" by (simp add: colors_def)
    show ?thesis
      using r2 c r1 r3
      by (simp add: spawnSuccessParticle_def Math_random_def Let_def setTimeout_def len)
  qed
  have palette: "length colors = 4" by (simp add: colors_def)
  have door: "doc w ''door-progress'' \<noteq> None \<and> doc w ''door-progress-bar'' \<noteq> None \<longrightarrow>
        (\<exists>w5. exec G_animateDoorOpening w = Inr w5
           \<and> timers w5 = timers w @ [(now w + 50, DoorOpeningFill 3000)]
           \<and> map_option width (doc w5 ''door-progress-bar'') = Some ''0%''
           \<and> map_option transition (doc w5 ''door-progress-bar'') = Some T_none
           \<and> map_option display (doc w5 ''door-progress'') = Some ''block'')"
    by (auto simp: animateDoorOpening_def getElementById_def setTimeout_def doc_updateElement)
  have fill: "doc w ''door-progress-bar'' \<noteq> None \<longrightarrow>
        (\<exists>w6. exec (DoorOpeningFill 3000) w = Inr w6
           \<and> map_option width (doc w6 ''door-progress-bar'') = Some ''100%''
           \<and> map_option transition (doc w6 ''door-progress-bar'') = Some (T_width_linear 3000))"
    by (auto simp: doc_updateElement)
  have finished: "exec G_done w = Inr (w\<lparr>isAnimating := False\<rparr>)" by simp
  from start burst particle palette door fill finished show ?thesis by blast
qed

text \<open>The theorem on the sample page, whose random numbers are all 1/2.\<close>

theorem granted_schedule_witness:
  "doc sampleWorld ''access-status'' \<noteq> None
   \<and> (\<forall>k. 0 \<le> mathRandom sampleWorld k \<and> mathRandom sampleWorld k < 1)
   \<and> doc sampleWorld ''door-progress'' \<noteq> None
   \<and> doc sampleWorld ''door-progress-bar'' \<noteq> None
   \<and> (\<exists>w2. exec G_createSuccessParticles sampleWorld = Inr w2
         \<and> timers w2 = map (\<lambda>i. (int i * 50, SuccessParticleSpawn)) [0..<30])
   \<and> (\<exists>w3 p sz c. exec SuccessParticleSpawn sampleWorld = Inr w3
         \<and> particles w3 = [p] \<and> size_px p = Some sz \<and> 5 \<le> sz \<and> sz < 15
         \<and> background p = Some c \<and> c \<in> set colors
         \<and> timers w3 = [(1500, SuccessParticleRemove (pid p))])
   \<and> (\<exists>w5. exec G_animateDoorOpening sampleWorld = Inr w5
         \<and> timers w5 = [(50, DoorOpeningFill 3000)])
   \<and> (\<exists>w6. exec (DoorOpeningFill 3000) sampleWorld = Inr w6
         \<and> map_option transition (doc w6 ''door-progress-bar'') = Some (T_width_linear 3000))"
proof -
  have pres: "doc sampleWorld ''access-status'' \<noteq> None"
      "doc sampleWorld ''door-progress'' \<noteq> None"
      "doc sampleWorld ''door-progress-bar'' \<noteq> None"
    by (simp_all add: sampleWorld_def samplePage_def)
  have rnd: "\<forall>k. 0 \<le> mathRandom sampleWorld k \<and> mathRandom sampleWorld k < 1"
    by (simp add: sampleWorld_def)
  have init: "timers sampleWorld = []" "now sampleWorld = 0" "particles sampleWorld = []"
    by (simp_all add: sampleWorld_def)
  note T = granted_schedule [of None sampleWorld]
  from T pres(1) have a: "\<exists>w2. exec G_createSuccessParticles sampleWorld = Inr w2
         \<and> timers w2 = map (\<lambda>i. (int i * 50, SuccessParticleSpawn)) [0..<30]"
    unfolding init by simp
  from T rnd have b: "\<exists>w3 p sz c. exec SuccessParticleSpawn sampleWorld = Inr w3
         \<and> particles w3 = [p] \<and> size_px p = Some sz \<and> 5 \<le> sz \<and> sz < 15
         \<and> background p = Some c \<and> c \<in> set colors
         \<and> timers w3 = [(1500, SuccessParticleRemove (pid p))]"
    unfolding init by simp blast
  from T pres(2,3) have c: "\<exists>w5. exec G_animateDoorOpening sampleWorld = Inr w5
         \<and> timers w5 = [(50, DoorOpeningFill 3000)]"
    unfolding init by simp blast
  from T pres(3) have d: "\<exists>w6. exec (DoorOpeningFill 3000) sampleWorld = Inr w6
         \<and> map_option transition (doc w6 ''door-progress-bar'') = Some (T_width_linear 3000)"
    by blast
  from pres rnd a b c d show ?thesis by blast
qed

text \<open>
  Claim C5 as stated fails where the caller has a duration other than 3000 ms: an
  \<open>ACCESS_GRANTED\<close> event with a duration of 5 s makes the handler set a 5000 ms fill,
  but the granted sequence started for the same event opens the bar at 800 ms and fills
  it at 850 ms over 3000 ms.
\<close>

theorem fixed_fill_duration_counterexample:
  "(case on_access_status_change
           \<lparr>state = ''ACCESS_GRANTED'', person_name = Some ''Alex'', message = None,
            duration = Some 5\<rparr> sampleWorld of
      Inr w \<Rightarrow> map_option transition (doc w ''door-progress-bar'') = Some (T_width_linear 5000)
    | Inl e \<Rightarrow> False)
   \<and> (case session 40
          [(0, on_access_status_change
                 \<lparr>state = ''ACCESS_GRANTED'', person_name = Some ''Alex'', message = None,
                  duration = Some 5\<rparr>),
           (0, playAccessGranted (Some ''Alex'')),
           (850, Inr)] sampleWorld of
      Some (Inr w) \<Rightarrow>
        (800, G_animateDoorOpening) \<in> set (fired w)
        \<and> (850, DoorOpeningFill 3000) \<in> set (fired w)
        \<and> map_option transition (doc w ''door-progress-bar'') = Some (T_width_linear 3000)
        \<and> T_width_linear 3000 \<noteq> T_width_linear 5000
    | _ \<Rightarrow> False)"
  by code_simp

text \<open>
  Claim C9. No callback of the event loop raises an error. A scheduled step of the granted
  or the denied sequence whose rendering target is absent when it fires returns normally
  and changes nothing (and so does the synchronous shake of the denied sequence, and
  the highlight step skips each body part that is absent); firing it only takes it off
  the timer list and records it. The other pending timers are
  untouched: when the clock is advanced to a deadline, every pending timer due by then
  fires and every later one stays pending, whatever is on the page.
\<close>

theorem absent_target_is_noop:
  "(\<exists>w'. exec a w = Inr w')
   \<and> (targetAbsent a w \<longrightarrow> exec a w = Inr w)
   \<and> (doc w elementId = None \<longrightarrow> shakeElement elementId w = Inr w)
   \<and> (doc w (fst entry) = None \<longrightarrow> highlightPart entry w = w)
   \<and> (targetAbsent (snd t) w \<longrightarrow>
        fire t w = Inr (w\<lparr>now := max (now w) (fst t),
                          timers := remove1 t (timers w),
                          fired := fired w @ [(max (now w) (fst t), snd t)]\<rparr>))
   \<and> (wellTimed w \<and> pendingWork (timers w) \<le> fuel \<longrightarrow>
        (\<exists>w'. advance fuel deadline w = Some (Inr w')
           \<and> (\<forall>s \<in> set (timers w). fst s \<le> deadline \<longrightarrow> s \<in> set (fired w'))
           \<and> (\<forall>s \<in> set (timers w). deadline < fst s \<longrightarrow> s \<in> set (timers w'))))"
proof -
  have total: "\<exists>w'. exec a w = Inr w'"
    using exec_effect [of a w] by blast
  have noop: "targetAbsent a w \<longrightarrow> exec a w = Inr w"
    using exec_absent by blast
  have shake: "doc w elementId = None \<longrightarrow> shakeElement elementId w = Inr w"
    by (simp add: shakeElement_def getElementById_def)
  have part: "doc w (fst entry) = None \<longrightarrow> highlightPart entry w = w"
    by (simp add: highlightPart_def getElementById_def)
  have fired: "targetAbsent (snd t) w \<longrightarrow>
        fire t w = Inr (w\<lparr>now := max (now w) (fst t),
                          timers := remove1 t (timers w),
                          fired := fired w @ [(max (now w) (fst t), snd t)]\<rparr>)"
  proof
    assume abs: "targetAbsent (snd t) w"
    let ?w = "w\<lparr>now := max (now w) (fst t), timers := remove1 t (timers w),
                fired := fired w @ [(max (now w) (fst t), snd t)]\<rparr>"
    have "targetAbsent (snd t) ?w"
      using abs by (cases "snd t") simp_all
    then show "fire t w = Inr ?w"
      unfolding fire_def by (rule exec_absent)
  qed
  have siblings: "wellTimed w \<and> pendingWork (timers w) \<le> fuel \<longrightarrow>
        (\<exists>w'. advance fuel deadline w = Some (Inr w')
           \<and> (\<forall>s \<in> set (timers w). fst s \<le> deadline \<longrightarrow> s \<in> set (fired w'))
           \<and> (\<forall>s \<in> set (timers w). deadline < fst s \<longrightarrow> s \<in> set (timers w')))"
  proof
    assume h: "wellTimed w \<and> pendingWork (timers w) \<le> fuel"
    from advance_enough [of w fuel deadline] h obtain w' where
      w': "advance fuel deadline w = Some (Inr w')" by blast
    from advance_result [OF w'] h w' show "\<exists>w'. advance fuel deadline w = Some (Inr w')
           \<and> (\<forall>s \<in> set (timers w). fst s \<le> deadline \<longrightarrow> s \<in> set (fired w'))
           \<and> (\<forall>s \<in> set (timers w). deadline < fst s \<longrightarrow> s \<in> set (timers w'))"
      by blast
  qed
  from total noop shake part fired siblings show ?thesis by blast
qed

text \<open>
  The theorem on a page without any element, after the denied sequence was started: the
  highlight step is a no-op there, and it and the denial-reason step both fire by 400 ms
  while the final step stays pending.
\<close>

theorem absent_target_is_noop_witness:
  "targetAbsent D_highlightMissingPPE deniedOnEmptyPage
   \<and> exec D_highlightMissingPPE deniedOnEmptyPage = Inr deniedOnEmptyPage
   \<and> doc deniedOnEmptyPage ''access-status'' = None
   \<and> shakeElement ''access-status'' deniedOnEmptyPage = Inr deniedOnEmptyPage
   \<and> wellTimed deniedOnEmptyPage
   \<and> pendingWork (timers deniedOnEmptyPage) \<le> 20
   \<and> (\<exists>w'. advance 20 400 deniedOnEmptyPage = Some (Inr w')
         \<and> (200, D_highlightMissingPPE) \<in> set (fired w')
         \<and> (400, D_showDenialReason None) \<in> set (fired w')
         \<and> (2000, D_done) \<in> set (timers w'))"
proof -
  note T = absent_target_is_noop [of D_highlightMissingPPE deniedOnEmptyPage
      "''access-status''" "(''head'', [str ''Head'', str ''Helmet''])" "(200, D_highlightMissingPPE)" 20 400]
  note F = deniedOnEmptyPage_facts
  from T F(4) have a: "exec D_highlightMissingPPE deniedOnEmptyPage = Inr deniedOnEmptyPage"
    by blast
  from T F(5) have b: "shakeElement ''access-status'' deniedOnEmptyPage = Inr deniedOnEmptyPage"
    by blast
  from T F(1,2) obtain w' where w': "advance 20 400 deniedOnEmptyPage = Some (Inr w')"
      "\<forall>s \<in> set (timers deniedOnEmptyPage). fst s \<le> 400 \<longrightarrow> s \<in> set (fired w')"
      "\<forall>s \<in> set (timers deniedOnEmptyPage). 400 < fst s \<longrightarrow> s \<in> set (timers w')"
    by blast
  from w'(2,3) have c: "(200, D_highlightMissingPPE) \<in> set (fired w')
         \<and> (400, D_showDenialReason None) \<in> set (fired w')
         \<and> (2000, D_done) \<in> set (timers w')"
    unfolding F(3) by simp
  from F(1,2,4,5) a b w'(1) c show ?thesis by blast
qed

end
